theory Spec2Isabelle
  imports Complex_Main
begin

section \<open>Data model (prisma/schema.prisma, middleware/auth.ts, routes/orders.ts)\<close>

text \<open>
  Roles and order statuses are string constants in the source (\<^verbatim>\<open>UserRole\<close> in
  middleware/auth.ts, \<^verbatim>\<open>enum OrderStatus\<close> in routes/orders.ts); every writer stores one
  of the four values, so both are datatypes here. Request fields that arrive as free
  strings (\<^verbatim>\<open>body('status')\<close>, \<^verbatim>\<open>body('role')\<close>) stay strings until the
  \<^verbatim>\<open>isIn([...])\<close> validator has accepted them.

  Prices are \<^verbatim>\<open>Float\<close> columns and JavaScript numbers. They are exact reals here:
  the rounding of IEEE-754 doubles is outside this model. Ids are integers, and so are
  the quantities in the tables (\<^verbatim>\<open>Int\<close> columns). Times are natural numbers.
\<close>

datatype UserRole = ADMIN | KITCHEN | WAITER | CUSTOMER

datatype OrderStatus = PENDING | IN_PROGRESS | COMPLETED | CANCELLED

text \<open>
  The rows of the tables. Columns that no modelled operation reads or writes (names,
  addresses, descriptions) are left out; \<^verbatim>\<open>Menu.title\<close> stays because an error
  message quotes it. An order keeps both its timestamps: \<^verbatim>\<open>createdAt\<close> is set when
  the row is inserted, and \<^verbatim>\<open>updatedAt\<close> (\<^verbatim>\<open>@updatedAt\<close>) is rewritten by every
  update of the row. The timestamps of the other tables are written once, at insertion,
  and are left out.
\<close>

record Location =
  l_id :: int
  l_isActive :: bool

record Menu =
  m_id :: int
  m_title :: string
  m_price :: real
  m_isAvailable :: bool
  m_locationId :: int

record Customization =
  c_id :: int
  c_price :: real
  c_menuId :: int

record User =
  u_id :: int
  u_email :: string
  u_password :: string
  u_role :: UserRole
  u_loyaltyPoints :: int

record Order =
  o_id :: int
  o_status :: OrderStatus
  o_total :: real
  o_locationId :: int
  o_userId :: int
  o_createdAt :: nat
  o_updatedAt :: nat

record OrderItem =
  oi_id :: int
  oi_orderId :: int
  oi_menuId :: int
  oi_quantity :: int
  oi_priceAtTime :: real

record OrderItemCustomization =
  oic_id :: int
  oic_orderItemId :: int
  oic_customizationId :: int
  oic_quantity :: int
  oic_priceAtTime :: real

text \<open>
  What a Socket.IO push carries. The order routes send the order row with the relations
  their query includes (null if the read-back finds nothing); the socket relay of a status
  message sends \<^verbatim>\<open>{ orderId, status, updatedBy }\<close>.
  The rooms are \<^verbatim>\<open>`location_${id}`\<close> and \<^verbatim>\<open>`user_${id}`\<close>.
\<close>

record HydratedItem =
  h_item :: OrderItem
  h_customizations :: "OrderItemCustomization list"

record HydratedOrder =
  h_order :: Order
  h_items :: "HydratedItem list"

datatype room = LocationRoom int | UserRoom int

datatype payload = OrderPayload "HydratedOrder option" | StatusRelay int string string

type_synonym event = "room \<times> string \<times> payload"

text \<open>
  The state: the database tables, each a list of rows in insertion order, the pushes
  sent so far through \<^verbatim>\<open>io\<close>, and the time of the clock that \<^verbatim>\<open>now()\<close> and
  \<^verbatim>\<open>@updatedAt\<close> read. (routes/orders.ts imports \<^verbatim>\<open>io\<close> from index.ts; the model
  takes it to be the Socket.IO server created there.)
\<close>

record state =
  locations :: "Location list"
  menus :: "Menu list"
  customizations :: "Customization list"
  users :: "User list"
  orders :: "Order list"
  orderItems :: "OrderItem list"
  orderItemCustomizations :: "OrderItemCustomization list"
  emitted :: "event list"
  clock :: nat

text \<open>
  Errors. The first group are the \<^verbatim>\<open>createError(message, status)\<close> calls of the routes
  and the responses of the auth middleware; \<open>statusCode\<close> gives their HTTP status.
  \<open>PrismaRecordNotFound\<close> is the exception \<^verbatim>\<open>prisma.order.update\<close> raises (P2025) when
  no row matches its \<^verbatim>\<open>where\<close>; \<open>PrismaTransactionFailed\<close> is a unit of work that
  threw (a value its column does not take, a broken foreign key, a null dereference) and
  was rolled back; \<open>PrismaValidationError\<close> is a query Prisma refuses to run. None of
  them is made by \<^verbatim>\<open>createError\<close>, so none carries a status code of the routes.
\<close>

datatype error =
    AccessTokenRequired
  | InvalidToken
  | InsufficientPermissions
  | ValidationFailed
  | LocationNotFound
  | ItemNotFound int
  | LocationMismatch string
  | CustomizationNotFound int
  | OrderNotFound
  | NotAuthorizedToCancel
  | CanOnlyCancelPending
  | UserAlreadyExists
  | JwtSecretNotConfigured
  | PrismaRecordNotFound
  | PrismaTransactionFailed
  | PrismaValidationError

fun statusCode :: "error \<Rightarrow> nat option" where
  "statusCode AccessTokenRequired = Some 401"
| "statusCode InvalidToken = Some 403"
| "statusCode InsufficientPermissions = Some 403"
| "statusCode ValidationFailed = Some 400"
| "statusCode LocationNotFound = Some 404"
| "statusCode (ItemNotFound k) = Some 404"
| "statusCode (LocationMismatch t) = Some 400"
| "statusCode (CustomizationNotFound k) = Some 404"
| "statusCode OrderNotFound = Some 404"
| "statusCode NotAuthorizedToCancel = Some 403"
| "statusCode CanOnlyCancelPending = Some 400"
| "statusCode UserAlreadyExists = Some 409"
| "statusCode JwtSecretNotConfigured = Some 500"
| "statusCode PrismaRecordNotFound = None"
| "statusCode PrismaTransactionFailed = None"
| "statusCode PrismaValidationError = None"

section \<open>Access control (middleware/auth.ts)\<close>

text \<open>
  \<^verbatim>\<open>req.user\<close> is the decoded token. Verifying the signature is the JWT library's
  work: a request carries no token, a token that does not verify, or a verified one.
\<close>

record AuthUser =
  a_id :: int
  a_email :: string
  a_role :: UserRole

datatype credential = NoToken | BadToken | Token AuthUser

fun authenticateToken :: "credential \<Rightarrow> error + AuthUser" where
  "authenticateToken NoToken = Inl AccessTokenRequired"
| "authenticateToken BadToken = Inl InvalidToken"
| "authenticateToken (Token u) = Inr u"

definition requireRole :: "UserRole list \<Rightarrow> AuthUser \<Rightarrow> bool" where
  "requireRole roles u \<longleftrightarrow> a_role u \<in> set roles"

definition requireKitchenOrAdmin :: "AuthUser \<Rightarrow> bool" where
  "requireKitchenOrAdmin = requireRole [KITCHEN, ADMIN]"

section \<open>Table access\<close>

text \<open>
  \<^verbatim>\<open>findUnique\<close> returns the row matching the \<^verbatim>\<open>where\<close> clause or null. The id
  columns are \<^verbatim>\<open>AUTOINCREMENT\<close> primary keys: a new row gets an id above every id
  in the table.
\<close>

definition nextId :: "int list \<Rightarrow> int" where
  "nextId ids = 1 + fold max ids 0"

definition findActiveLocation :: "state \<Rightarrow> int \<Rightarrow> Location option" where
  "findActiveLocation s k = find (\<lambda>l. l_id l = k \<and> l_isActive l) (locations s)"

definition findAvailableMenu :: "state \<Rightarrow> int \<Rightarrow> Menu option" where
  "findAvailableMenu s k = find (\<lambda>m. m_id m = k \<and> m_isAvailable m) (menus s)"

definition findCustomization :: "state \<Rightarrow> int \<Rightarrow> Customization option" where
  "findCustomization s k = find (\<lambda>c. c_id c = k) (customizations s)"

definition findOrder :: "state \<Rightarrow> int \<Rightarrow> Order option" where
  "findOrder s k = find (\<lambda>ord. o_id ord = k) (orders s)"

definition hydrateItem :: "bool \<Rightarrow> state \<Rightarrow> OrderItem \<Rightarrow> HydratedItem" where
  "hydrateItem withCustomizations s i =
     \<lparr>h_item = i,
      h_customizations =
        (if withCustomizations
         then filter (\<lambda>c. oic_orderItemId c = oi_id i) (orderItemCustomizations s)
         else [])\<rparr>"

definition hydrate :: "bool \<Rightarrow> state \<Rightarrow> Order \<Rightarrow> HydratedOrder" where
  "hydrate withCustomizations s ord =
     \<lparr>h_order = ord,
      h_items = map (hydrateItem withCustomizations s)
                  (filter (\<lambda>i. oi_orderId i = o_id ord) (orderItems s))\<rparr>"

definition emit :: "room \<Rightarrow> string \<Rightarrow> payload \<Rightarrow> state \<Rightarrow> state" where
  "emit r name payload s = s\<lparr>emitted := emitted s @ [(r, name, payload)]\<rparr>"

section \<open>Order creation (POST /api/orders)\<close>

text \<open>
  The request body. \<^verbatim>\<open>customizations\<close> is optional; an absent list and an empty one
  take the same branch at both places that read it, so the model has one list.
  The validators check \<^verbatim>\<open>locationId\<close>, \<^verbatim>\<open>items.*.menuId\<close> and
  \<^verbatim>\<open>items.*.quantity\<close>, which are integers here (a body that carries one of them
  as a numeral in a string is not modelled). Nothing checks a customization reference:
  its \<^verbatim>\<open>customizationId\<close> is taken to be an integer here, and its
  \<^verbatim>\<open>quantity\<close> is whatever JSON value the body carries, or absent
  (\<open>JUndefined\<close>). \<open>JCompound\<close> stands for an array or an object.
\<close>

datatype jsvalue = JUndefined | JNull | JBool bool | JNumber real | JString string | JCompound

record CustomizationRef =
  cr_customizationId :: int
  cr_quantity :: jsvalue

record CartItem =
  ci_menuId :: int
  ci_quantity :: int
  ci_customizations :: "CustomizationRef list"

record CreateOrderRequest =
  r_locationId :: int
  r_items :: "CartItem list"

text \<open>The express-validator chain: \<^verbatim>\<open>items\<close> has at least one element, each
  \<^verbatim>\<open>items.*.quantity\<close> is an integer of at least 1.\<close>

definition validateCreate :: "CreateOrderRequest \<Rightarrow> bool" where
  "validateCreate r \<longleftrightarrow> r_items r \<noteq> [] \<and> list_all (\<lambda>i. 1 \<le> ci_quantity i) (r_items r)"

text \<open>
  \<^verbatim>\<open>customization.quantity || 1\<close>. JavaScript takes \<^verbatim>\<open>undefined\<close>, \<^verbatim>\<open>null\<close>,
  \<^verbatim>\<open>false\<close>, \<^verbatim>\<open>0\<close> and \<^verbatim>\<open>''\<close> for false (NaN is no JSON value); every other
  value, arrays and objects included, is taken for true and is the result itself.
\<close>

fun truthy :: "jsvalue \<Rightarrow> bool" where
  "truthy JUndefined = False"
| "truthy JNull = False"
| "truthy (JBool b) = b"
| "truthy (JNumber x) = (x \<noteq> 0)"
| "truthy (JString t) = (t \<noteq> [])"
| "truthy JCompound = True"

definition customizationQuantity :: "CustomizationRef \<Rightarrow> jsvalue" where
  "customizationQuantity c = (if truthy (cr_quantity c) then cr_quantity c else JNumber 1)"

text \<open>
  The numbers of the handler. A product or a sum is a JavaScript number; \<open>None\<close> stands
  for a number this model does not compute: NaN, or what \<^verbatim>\<open>price * quantity\<close> gives
  when the quantity is a non-empty string, an array or an object and JavaScript first
  reads a number out of it. \<open>toNumber\<close> is that reading for the other values.
\<close>

type_synonym jsnumber = "real option"

fun toNumber :: "jsvalue \<Rightarrow> jsnumber" where
  "toNumber JUndefined = None"
| "toNumber JNull = Some 0"
| "toNumber (JBool b) = Some (if b then 1 else 0)"
| "toNumber (JNumber x) = Some x"
| "toNumber (JString t) = None"
| "toNumber JCompound = None"

definition jsAdd :: "jsnumber \<Rightarrow> jsnumber \<Rightarrow> jsnumber" where
  "jsAdd a b = (case a of None \<Rightarrow> None | Some x \<Rightarrow> (case b of None \<Rightarrow> None | Some y \<Rightarrow> Some (x + y)))"

definition jsMul :: "jsnumber \<Rightarrow> jsnumber \<Rightarrow> jsnumber" where
  "jsMul a b = (case a of None \<Rightarrow> None | Some x \<Rightarrow> (case b of None \<Rightarrow> None | Some y \<Rightarrow> Some (x * y)))"

text \<open>
  Writing to an \<^verbatim>\<open>Int\<close> column. Prisma refuses a value that is not a number. Of a
  number it stores an integer or throws; which numbers it takes, and as what, is
  Prisma's and the database's business and a parameter here: \<open>col x\<close> is the integer
  stored for the number \<open>x\<close>, \<open>None\<close> when the write throws.
\<close>

type_synonym intColumn = "real \<Rightarrow> int option"

fun writeInt :: "intColumn \<Rightarrow> jsvalue \<Rightarrow> int option" where
  "writeInt col (JNumber x) = col x"
| "writeInt col v = None"

text \<open>
  \<^verbatim>\<open>Promise.all\<close> over callbacks that each await a query: it fulfils with the values
  in order when none rejects, and otherwise rejects with whichever rejection settles
  first. Which one that is depends on the timing of the queries; the parameter
  \<open>rc\<close> stands for the race and picks among the rejections.
\<close>

type_synonym race = "error list \<Rightarrow> nat"

definition rejections :: "(error + 'a) list \<Rightarrow> error list" where
  "rejections rs = concat (map (\<lambda>r. case r of Inl e \<Rightarrow> [e] | Inr v \<Rightarrow> []) rs)"

definition fulfilled :: "(error + 'a) list \<Rightarrow> 'a list" where
  "fulfilled rs = concat (map (\<lambda>r. case r of Inl e \<Rightarrow> [] | Inr v \<Rightarrow> [v]) rs)"

definition promiseAll :: "race \<Rightarrow> (error + 'a) list \<Rightarrow> error + 'a list" where
  "promiseAll rc rs =
     (case rejections rs of
        [] \<Rightarrow> Inr (fulfilled rs)
      | e # es \<Rightarrow> Inl ((e # es) ! (rc (e # es) mod length (e # es))))"

definition customizationCost :: "state \<Rightarrow> CustomizationRef \<Rightarrow> error + jsnumber" where
  "customizationCost s customization =
     (case findCustomization s (cr_customizationId customization) of
        None \<Rightarrow> Inl (CustomizationNotFound (cr_customizationId customization))
      | Some customizationItem \<Rightarrow>
          Inr (jsMul (Some (c_price customizationItem))
                 (toNumber (customizationQuantity customization))))"

record PricedItem =
  p_item :: CartItem
  p_menuItem :: Menu
  p_itemTotal :: jsnumber

definition priceItem :: "race \<Rightarrow> state \<Rightarrow> int \<Rightarrow> CartItem \<Rightarrow> error + PricedItem" where
  "priceItem rc s locationId item =
     (case findAvailableMenu s (ci_menuId item) of
        None \<Rightarrow> Inl (ItemNotFound (ci_menuId item))
      | Some menuItem \<Rightarrow>
          if m_locationId menuItem \<noteq> locationId then Inl (LocationMismatch (m_title menuItem))
          else if ci_customizations item = []
          then Inr \<lparr>p_item = item, p_menuItem = menuItem,
                    p_itemTotal = Some (m_price menuItem * real_of_int (ci_quantity item))\<rparr>
          else (case promiseAll rc (map (customizationCost s) (ci_customizations item)) of
                  Inl e \<Rightarrow> Inl e
                | Inr customizationCosts \<Rightarrow>
                    Inr \<lparr>p_item = item, p_menuItem = menuItem,
                         p_itemTotal =
                           jsAdd (Some (m_price menuItem * real_of_int (ci_quantity item)))
                             (jsMul (foldl jsAdd (Some 0) customizationCosts)
                                (Some (real_of_int (ci_quantity item))))\<rparr>))"

text \<open>
  The unit of work of \<^verbatim>\<open>prisma.$transaction\<close>; any throw inside it rolls it back.
  It looks every customization up again for its price
  (\<^verbatim>\<open>customizationItem!.price\<close> on a missing row throws) and writes
  \<^verbatim>\<open>customization.quantity || 1\<close> and \<^verbatim>\<open>item.quantity\<close> to \<^verbatim>\<open>Int\<close> columns.
\<close>

fun insertCustomizations ::
  "intColumn \<Rightarrow> state \<Rightarrow> int \<Rightarrow> CustomizationRef list \<Rightarrow> error + state" where
  "insertCustomizations col s orderItemId [] = Inr s"
| "insertCustomizations col s orderItemId (customization # rest) =
     (case findCustomization s (cr_customizationId customization) of
        None \<Rightarrow> Inl PrismaTransactionFailed
      | Some customizationItem \<Rightarrow>
          (case writeInt col (customizationQuantity customization) of
             None \<Rightarrow> Inl PrismaTransactionFailed
           | Some quantity \<Rightarrow>
               insertCustomizations col
                 (s\<lparr>orderItemCustomizations := orderItemCustomizations s @
                      [\<lparr>oic_id = nextId (map oic_id (orderItemCustomizations s)),
                        oic_orderItemId = orderItemId,
                        oic_customizationId = cr_customizationId customization,
                        oic_quantity = quantity,
                        oic_priceAtTime = c_price customizationItem\<rparr>]\<rparr>)
                 orderItemId rest))"

fun insertItems :: "intColumn \<Rightarrow> state \<Rightarrow> int \<Rightarrow> PricedItem list \<Rightarrow> error + state" where
  "insertItems col s orderId [] = Inr s"
| "insertItems col s orderId (item # rest) =
     (case col (real_of_int (ci_quantity (p_item item))) of
        None \<Rightarrow> Inl PrismaTransactionFailed
      | Some quantity \<Rightarrow>
          (let orderItemId = nextId (map oi_id (orderItems s));
               s1 = s\<lparr>orderItems := orderItems s @
                      [\<lparr>oi_id = orderItemId,
                        oi_orderId = orderId,
                        oi_menuId = ci_menuId (p_item item),
                        oi_quantity = quantity,
                        oi_priceAtTime = m_price (p_menuItem item)\<rparr>]\<rparr>
           in case insertCustomizations col s1 orderItemId (ci_customizations (p_item item)) of
                Inl e \<Rightarrow> Inl e
              | Inr s2 \<Rightarrow> insertItems col s2 orderId rest))"

text \<open>
  The order row comes first. Its \<^verbatim>\<open>userId\<close> is a foreign key into the users: for a
  caller who is no stored user the insert throws (P2003). A total the model does not
  compute comes only from a customization quantity that is a string, an array or an
  object, which the \<^verbatim>\<open>Int\<close> column of its line refuses: whatever the \<^verbatim>\<open>Float\<close>
  column makes of such a total, the unit of work fails.
\<close>

definition orderTransaction ::
  "intColumn \<Rightarrow> state \<Rightarrow> int \<Rightarrow> int \<Rightarrow> jsnumber \<Rightarrow> PricedItem list \<Rightarrow> error + (state \<times> Order)" where
  "orderTransaction col s locationId userId orderTotal menuItems =
     (case orderTotal of
        None \<Rightarrow> Inl PrismaTransactionFailed
      | Some amount \<Rightarrow>
          if \<not> list_ex (\<lambda>u. u_id u = userId) (users s) then Inl PrismaTransactionFailed
          else
            (let newOrder = \<lparr>o_id = nextId (map o_id (orders s)), o_status = PENDING,
                             o_total = amount, o_locationId = locationId, o_userId = userId,
                             o_createdAt = clock s, o_updatedAt = clock s\<rparr>
             in case insertItems col (s\<lparr>orders := orders s @ [newOrder]\<rparr>) (o_id newOrder)
                       menuItems of
                  Inl e \<Rightarrow> Inl e
                | Inr s' \<Rightarrow> Inr (s', newOrder)))"

text \<open>
  The handler. A failure before the transaction leaves the state as it was; a failed
  transaction is rolled back to the same state. On success the complete order is read
  back and pushed as \<^verbatim>\<open>newOrder\<close> to the location room and as \<^verbatim>\<open>orderCreated\<close>
  to the caller's room. The running \<^verbatim>\<open>total += itemTotal\<close> adds the item totals in the
  order the callbacks finish; over exact numbers that is their sum in any order.
\<close>

definition createOrder ::
  "race \<Rightarrow> intColumn \<Rightarrow> state \<Rightarrow> credential \<Rightarrow> CreateOrderRequest
     \<Rightarrow> state \<times> (error + HydratedOrder option)" where
  "createOrder rc col s cred r =
     (case authenticateToken cred of
        Inl e \<Rightarrow> (s, Inl e)
      | Inr user \<Rightarrow>
          if \<not> validateCreate r then (s, Inl ValidationFailed)
          else (case findActiveLocation s (r_locationId r) of
            None \<Rightarrow> (s, Inl LocationNotFound)
          | Some location \<Rightarrow>
              (case promiseAll rc (map (priceItem rc s (r_locationId r)) (r_items r)) of
                 Inl e \<Rightarrow> (s, Inl e)
               | Inr menuItems \<Rightarrow>
                   (case orderTransaction col s (r_locationId r) (a_id user)
                           (foldl jsAdd (Some 0) (map p_itemTotal menuItems)) menuItems of
                      Inl e \<Rightarrow> (s, Inl e)
                    | Inr (s', ord) \<Rightarrow>
                        (let completeOrder = map_option (hydrate True s') (findOrder s' (o_id ord))
                         in (emit (UserRoom (a_id user)) ''orderCreated'' (OrderPayload completeOrder)
                               (emit (LocationRoom (r_locationId r)) ''newOrder''
                                  (OrderPayload completeOrder) s'),
                             Inr completeOrder))))))"

section \<open>Status changes (PATCH /api/orders/:id/status, PATCH /api/orders/:id/cancel)\<close>

text \<open>\<^verbatim>\<open>body('status').isIn(['PENDING', 'IN_PROGRESS', 'COMPLETED', 'CANCELLED'])\<close>.\<close>

fun statusName :: "OrderStatus \<Rightarrow> string" where
  "statusName PENDING = ''PENDING''"
| "statusName IN_PROGRESS = ''IN_PROGRESS''"
| "statusName COMPLETED = ''COMPLETED''"
| "statusName CANCELLED = ''CANCELLED''"

definition statusOfString :: "string \<Rightarrow> OrderStatus option" where
  "statusOfString x = find (\<lambda>st. statusName st = x) [PENDING, IN_PROGRESS, COMPLETED, CANCELLED]"

text \<open>
  \<^verbatim>\<open>prisma.order.update({ where: { id }, data: { status } })\<close>: the row with that id
  gets the new status, and its \<^verbatim>\<open>updatedAt\<close> the time of the update; with no such
  row the call throws (\<open>None\<close> here).
\<close>

fun updateStatus ::
  "int \<Rightarrow> OrderStatus \<Rightarrow> nat \<Rightarrow> Order list \<Rightarrow> (Order list \<times> Order) option" where
  "updateStatus k st now [] = None"
| "updateStatus k st now (ord # rest) =
     (if o_id ord = k
      then Some (ord\<lparr>o_status := st, o_updatedAt := now\<rparr> # rest,
                 ord\<lparr>o_status := st, o_updatedAt := now\<rparr>)
      else map_option (\<lambda>(rest', upd). (ord # rest', upd)) (updateStatus k st now rest))"

text \<open>
  Set status: \<^verbatim>\<open>authenticateToken\<close>, then \<^verbatim>\<open>requireKitchenOrAdmin\<close>, then the
  validator, then the update, with no lookup and no look at the current status. The
  pushed order includes its items but not their customizations.
\<close>

definition setOrderStatus ::
  "state \<Rightarrow> credential \<Rightarrow> int \<Rightarrow> string \<Rightarrow> state \<times> (error + HydratedOrder)" where
  "setOrderStatus s cred orderId statusField =
     (case authenticateToken cred of
        Inl e \<Rightarrow> (s, Inl e)
      | Inr user \<Rightarrow>
          if \<not> requireKitchenOrAdmin user then (s, Inl InsufficientPermissions)
          else (case statusOfString statusField of
            None \<Rightarrow> (s, Inl ValidationFailed)
          | Some st \<Rightarrow>
              (case updateStatus orderId st (clock s) (orders s) of
                 None \<Rightarrow> (s, Inl PrismaRecordNotFound)
               | Some (orders', ord) \<Rightarrow>
                   (let s' = s\<lparr>orders := orders'\<rparr>;
                        payload = hydrate False s' ord
                    in (emit (UserRoom (o_userId ord)) ''orderStatusUpdated''
                          (OrderPayload (Some payload))
                          (emit (LocationRoom (o_locationId ord)) ''orderStatusUpdated''
                             (OrderPayload (Some payload)) s'),
                        Inr payload)))))"

text \<open>
  Cancel: lookup, then the ownership check for customers, then the PENDING guard, then
  the update to CANCELLED.
\<close>

definition cancelOrder ::
  "state \<Rightarrow> credential \<Rightarrow> int \<Rightarrow> state \<times> (error + HydratedOrder)" where
  "cancelOrder s cred orderId =
     (case authenticateToken cred of
        Inl e \<Rightarrow> (s, Inl e)
      | Inr user \<Rightarrow>
          (case findOrder s orderId of
             None \<Rightarrow> (s, Inl OrderNotFound)
           | Some existingOrder \<Rightarrow>
               if a_role user = CUSTOMER \<and> o_userId existingOrder \<noteq> a_id user
               then (s, Inl NotAuthorizedToCancel)
               else if o_status existingOrder \<noteq> PENDING then (s, Inl CanOnlyCancelPending)
               else (case updateStatus orderId CANCELLED (clock s) (orders s) of
                 None \<Rightarrow> (s, Inl PrismaRecordNotFound)
               | Some (orders', ord) \<Rightarrow>
                   (let s' = s\<lparr>orders := orders'\<rparr>;
                        payload = hydrate False s' ord
                    in (emit (UserRoom (o_userId ord)) ''orderCancelled''
                          (OrderPayload (Some payload))
                          (emit (LocationRoom (o_locationId ord)) ''orderCancelled''
                             (OrderPayload (Some payload)) s'),
                        Inr payload)))))"

section \<open>The socket relay of a status message (socket/socketHandlers.ts)\<close>

text \<open>
  A connection is authenticated at the handshake, so the handler has its user. On an
  \<^verbatim>\<open>updateOrderStatus\<close> message from a KITCHEN or ADMIN connection the server pushes
  \<^verbatim>\<open>orderStatusUpdated\<close> to the location room named in the message, with the
  message's order id and status and the sender's email. It reads and writes no table.
\<close>

record StatusMessage =
  sm_orderId :: int
  sm_status :: string
  sm_locationId :: int

definition updateOrderStatus :: "state \<Rightarrow> AuthUser \<Rightarrow> StatusMessage \<Rightarrow> state" where
  "updateOrderStatus s user d =
     (if a_role user = KITCHEN \<or> a_role user = ADMIN
      then emit (LocationRoom (sm_locationId d)) ''orderStatusUpdated''
             (StatusRelay (sm_orderId d) (sm_status d) (a_email user)) s
      else s)"

section \<open>Reading orders (GET /api/orders/:id, GET /api/orders)\<close>

text \<open>
  For a CUSTOMER the \<^verbatim>\<open>where\<close> clause also carries \<^verbatim>\<open>userId = req.user.id\<close>.
\<close>

definition visibleTo :: "AuthUser \<Rightarrow> Order \<Rightarrow> bool" where
  "visibleTo user ord \<longleftrightarrow> (if a_role user = CUSTOMER then o_userId ord = a_id user else True)"

definition getOrder :: "state \<Rightarrow> credential \<Rightarrow> int \<Rightarrow> error + HydratedOrder" where
  "getOrder s cred orderId =
     (case authenticateToken cred of
        Inl e \<Rightarrow> Inl e
      | Inr user \<Rightarrow>
          (case find (\<lambda>ord. o_id ord = orderId \<and> visibleTo user ord) (orders s) of
             None \<Rightarrow> Inl OrderNotFound
           | Some ord \<Rightarrow> Inr (hydrate True s ord)))"

text \<open>
  The list: optional \<^verbatim>\<open>status\<close> and \<^verbatim>\<open>locationId\<close> filters (an empty status string
  is falsy and filters nothing), ordered by \<^verbatim>\<open>createdAt\<close> descending, then
  \<^verbatim>\<open>skip: (page - 1) * limit\<close> and \<^verbatim>\<open>take: limit\<close>. \<open>page\<close> and \<open>limit\<close> are
  naturals. Page 0 with a positive limit asks for a negative \<^verbatim>\<open>skip\<close>, which Prisma
  refuses. The sort is stable: among orders of one time the later row comes first.
\<close>

definition listOrders ::
  "state \<Rightarrow> credential \<Rightarrow> string option \<Rightarrow> int option \<Rightarrow> nat \<Rightarrow> nat \<Rightarrow> error + HydratedOrder list" where
  "listOrders s cred statusQ locationQ page limit =
     (case authenticateToken cred of
        Inl e \<Rightarrow> Inl e
      | Inr user \<Rightarrow>
          if (int page - 1) * int limit < 0 then Inl PrismaValidationError
          else
            Inr (map (hydrate True s)
                  (take limit (drop ((page - 1) * limit)
                    (rev (sort_key o_createdAt
                      (filter (\<lambda>ord. visibleTo user ord
                            \<and> (case statusQ of None \<Rightarrow> True
                                | Some q \<Rightarrow> q = [] \<or> statusName (o_status ord) = q)
                            \<and> (case locationQ of None \<Rightarrow> True
                                | Some l \<Rightarrow> o_locationId ord = l))
                          (orders s))))))))"

section \<open>Registration (POST /api/auth/register)\<close>

text \<open>
  The route has no \<^verbatim>\<open>authenticateToken\<close> in front of it: the operation takes no
  credential. \<^verbatim>\<open>isEmail\<close>, \<^verbatim>\<open>normalizeEmail\<close> and \<^verbatim>\<open>bcrypt.hash\<close> are library
  functions and \<^verbatim>\<open>JWT_SECRET\<close> is configuration: all four are parameters. The signed
  token is modelled by the claims it carries. The optional name and phone fields pass
  through to the row untouched and are left out.
\<close>

record registerEnv =
  isEmail :: "string \<Rightarrow> bool"
  normalizeEmail :: "string \<Rightarrow> string"
  bcryptHash :: "string \<Rightarrow> string"
  JWT_SECRET :: "string option"

record RegisterRequest =
  g_email :: string
  g_password :: string
  g_role :: "string option"

fun roleName :: "UserRole \<Rightarrow> string" where
  "roleName CUSTOMER = ''CUSTOMER''"
| "roleName WAITER = ''WAITER''"
| "roleName KITCHEN = ''KITCHEN''"
| "roleName ADMIN = ''ADMIN''"

definition roleOfString :: "string \<Rightarrow> UserRole option" where
  "roleOfString x = find (\<lambda>r. roleName r = x) [CUSTOMER, WAITER, KITCHEN, ADMIN]"

text \<open>\<^verbatim>\<open>body('role').optional().isIn([...])\<close> and the default of the destructuring
  \<^verbatim>\<open>role = 'CUSTOMER'\<close>: the role the handler goes on with, if validation accepts.\<close>

definition requestedRole :: "RegisterRequest \<Rightarrow> UserRole option" where
  "requestedRole r = (case g_role r of None \<Rightarrow> Some CUSTOMER | Some x \<Rightarrow> roleOfString x)"

definition register ::
  "registerEnv \<Rightarrow> state \<Rightarrow> RegisterRequest \<Rightarrow> state \<times> (error + (User \<times> AuthUser))" where
  "register env s r =
     (if \<not> (isEmail env (g_email r) \<and> 6 \<le> length (g_password r)) then (s, Inl ValidationFailed)
      else (case requestedRole r of
        None \<Rightarrow> (s, Inl ValidationFailed)
      | Some role \<Rightarrow>
          (let email = normalizeEmail env (g_email r) in
           case find (\<lambda>u. u_email u = email) (users s) of
             Some existingUser \<Rightarrow> (s, Inl UserAlreadyExists)
           | None \<Rightarrow>
               (let user = \<lparr>u_id = nextId (map u_id (users s)), u_email = email,
                            u_password = bcryptHash env (g_password r), u_role = role,
                            u_loyaltyPoints = 0\<rparr>;
                    s' = s\<lparr>users := users s @ [user]\<rparr>
                in case JWT_SECRET env of
                     None \<Rightarrow> (s', Inl JwtSecretNotConfigured)
                   | Some secret \<Rightarrow>
                       if secret = [] then (s', Inl JwtSecretNotConfigured)
                       else (s', Inr (user, \<lparr>a_id = u_id user, a_email = u_email user,
                                              a_role = u_role user\<rparr>))))))"

section \<open>The pricing rule as the specification words it\<close>

text \<open>
  The menu item of a cart entry is the row of the menu table with the entry's
  \<^verbatim>\<open>menuId\<close>, and the customization of a reference the row with its
  \<^verbatim>\<open>customizationId\<close> (ids are primary keys; were a table to hold several rows of
  one id, the first). The unit price of an entry or a reference is the price in that row.
  A customization reference counts with the number the cart gives for it, and once
  where the cart gives no number or gives 0. A line costs
  \<open>unit price \<times> quantity + (\<Sum> customization unit price \<times> customization quantity) \<times> quantity\<close>,
  and the cart costs the sum of its lines.
\<close>

definition menuRow :: "state \<Rightarrow> int \<Rightarrow> Menu option" where
  "menuRow s k = (case filter (\<lambda>m. m_id m = k) (menus s) of [] \<Rightarrow> None | m # ms \<Rightarrow> Some m)"

definition customizationRow :: "state \<Rightarrow> int \<Rightarrow> Customization option" where
  "customizationRow s k =
     (case filter (\<lambda>c. c_id c = k) (customizations s) of [] \<Rightarrow> None | c # cs \<Rightarrow> Some c)"

definition unitPrice :: "state \<Rightarrow> CartItem \<Rightarrow> real" where
  "unitPrice s e = (case menuRow s (ci_menuId e) of None \<Rightarrow> 0 | Some m \<Rightarrow> m_price m)"

definition customizationUnitPrice :: "state \<Rightarrow> CustomizationRef \<Rightarrow> real" where
  "customizationUnitPrice s c =
     (case customizationRow s (cr_customizationId c) of None \<Rightarrow> 0 | Some x \<Rightarrow> c_price x)"

fun countedQuantity :: "jsvalue \<Rightarrow> real" where
  "countedQuantity (JNumber x) = (if x = 0 then 1 else x)"
| "countedQuantity v = 1"

definition lineTotal :: "state \<Rightarrow> CartItem \<Rightarrow> real" where
  "lineTotal s e =
     unitPrice s e * real_of_int (ci_quantity e)
     + (\<Sum>c\<leftarrow>ci_customizations e. customizationUnitPrice s c * countedQuantity (cr_quantity c))
       * real_of_int (ci_quantity e)"

definition cartTotal :: "state \<Rightarrow> CartItem list \<Rightarrow> real" where
  "cartTotal s items = (\<Sum>e\<leftarrow>items. lineTotal s e)"

text \<open>
  The same rule with every customization quantity taken as the cart states it, a stated
  0 included.
\<close>

fun statedQuantity :: "jsvalue \<Rightarrow> real" where
  "statedQuantity (JNumber x) = x"
| "statedQuantity v = 1"

definition statedTotal :: "state \<Rightarrow> CartItem list \<Rightarrow> real" where
  "statedTotal s items =
     (\<Sum>e\<leftarrow>items.
        unitPrice s e * real_of_int (ci_quantity e)
        + (\<Sum>c\<leftarrow>ci_customizations e. customizationUnitPrice s c * statedQuantity (cr_quantity c))
          * real_of_int (ci_quantity e))"

text \<open>
  A cart entry resolves when its menu item exists, is available and belongs to the
  target location, and every customization it references exists. A request is valid
  when the target location exists and is active, the cart is not empty, every quantity
  is at least 1 and every entry resolves.
\<close>

definition entryResolves :: "state \<Rightarrow> int \<Rightarrow> CartItem \<Rightarrow> bool" where
  "entryResolves s locationId e \<longleftrightarrow>
     (case menuRow s (ci_menuId e) of
        None \<Rightarrow> False
      | Some m \<Rightarrow> m_isAvailable m \<and> m_locationId m = locationId)
     \<and> list_all (\<lambda>c. customizationRow s (cr_customizationId c) \<noteq> None) (ci_customizations e)"

definition validCart :: "state \<Rightarrow> CreateOrderRequest \<Rightarrow> bool" where
  "validCart s r \<longleftrightarrow>
     list_ex (\<lambda>l. l_id l = r_locationId r \<and> l_isActive l) (locations s)
     \<and> r_items r \<noteq> []
     \<and> list_all (\<lambda>e. 1 \<le> ci_quantity e \<and> entryResolves s (r_locationId r) e) (r_items r)"

text \<open>
  What the tables can keep of a request. A customization quantity is \<^emph>\<open>plain\<close> when
  the cart leaves it out or gives null, false, 0, the empty string or a number for it.
  An \<^verbatim>\<open>Int\<close> column stores a number as it is when the write succeeds and the stored
  integer is that number. A cart is storable when the columns store every entry's
  quantity as it is, and every customization quantity is plain and counts with a number
  the columns store as it is. The caller is a stored user when a row of the users has the
  caller's id.
\<close>

fun isNumber :: "jsvalue \<Rightarrow> bool" where
  "isNumber (JNumber x) = True"
| "isNumber v = False"

definition countsAsOne :: "jsvalue \<Rightarrow> bool" where
  "countsAsOne v \<longleftrightarrow>
     v = JUndefined \<or> v = JNull \<or> v = JBool False \<or> v = JNumber 0 \<or> v = JString []"

definition plainQuantity :: "jsvalue \<Rightarrow> bool" where
  "plainQuantity v \<longleftrightarrow> countsAsOne v \<or> isNumber v"

definition storesAsIs :: "intColumn \<Rightarrow> real \<Rightarrow> bool" where
  "storesAsIs col x \<longleftrightarrow> (case col x of None \<Rightarrow> False | Some n \<Rightarrow> real_of_int n = x)"

definition storableCart :: "intColumn \<Rightarrow> CreateOrderRequest \<Rightarrow> bool" where
  "storableCart col r \<longleftrightarrow>
     list_all (\<lambda>e. storesAsIs col (real_of_int (ci_quantity e))
                 \<and> list_all (\<lambda>c. plainQuantity (cr_quantity c)
                                \<and> storesAsIs col (countedQuantity (cr_quantity c)))
                     (ci_customizations e))
       (r_items r)"

definition storedUser :: "state \<Rightarrow> AuthUser \<Rightarrow> bool" where
  "storedUser s u \<longleftrightarrow> list_ex (\<lambda>x. u_id x = a_id u) (users s)"


section \<open>Cart entries that fail a check\<close>

text \<open>
  The ways a cart entry can stand to the catalogue, in the words of the specification.
  An entry's menu item is \<^emph>\<open>foreign\<close> to a location when a row with its id exists and
  no row with that id belongs to the location; \<^emph>\<open>absent\<close> when no row has its id;
  \<^emph>\<open>unavailable\<close> when rows with its id exist and all are switched off.
  \<open>noOtherFailure\<close> says that a request can fail for a location mismatch only: it passes
  validation, the target location is active, every entry's menu item is found available,
  and every entry at the target location references existing customizations only.
  An entry is \<^emph>\<open>resolvable\<close> when the handler's lookups find its menu item at the target
  location and every customization it references.
\<close>

definition resolvable :: "state \<Rightarrow> int \<Rightarrow> CartItem \<Rightarrow> bool" where
  "resolvable s locationId e \<longleftrightarrow>
     (case findAvailableMenu s (ci_menuId e) of None \<Rightarrow> False | Some m \<Rightarrow> m_locationId m = locationId)
     \<and> list_all (\<lambda>c. findCustomization s (cr_customizationId c) \<noteq> None) (ci_customizations e)"

definition foreignItem :: "state \<Rightarrow> int \<Rightarrow> CartItem \<Rightarrow> bool" where
  "foreignItem s locationId e \<longleftrightarrow>
     list_ex (\<lambda>m. m_id m = ci_menuId e) (menus s)
     \<and> list_all (\<lambda>m. m_id m = ci_menuId e \<longrightarrow> m_locationId m \<noteq> locationId) (menus s)"

definition itemAbsent :: "state \<Rightarrow> CartItem \<Rightarrow> bool" where
  "itemAbsent s e \<longleftrightarrow> \<not> list_ex (\<lambda>m. m_id m = ci_menuId e) (menus s)"

definition itemUnavailable :: "state \<Rightarrow> CartItem \<Rightarrow> bool" where
  "itemUnavailable s e \<longleftrightarrow>
     list_ex (\<lambda>m. m_id m = ci_menuId e) (menus s)
     \<and> list_all (\<lambda>m. m_id m = ci_menuId e \<longrightarrow> \<not> m_isAvailable m) (menus s)"

definition noOtherFailure :: "state \<Rightarrow> CreateOrderRequest \<Rightarrow> bool" where
  "noOtherFailure s r \<longleftrightarrow>
     validateCreate r
     \<and> findActiveLocation s (r_locationId r) \<noteq> None
     \<and> list_all (\<lambda>e. case findAvailableMenu s (ci_menuId e) of
                        None \<Rightarrow> False
                      | Some m \<Rightarrow> m_locationId m \<noteq> r_locationId r
                          \<or> list_all (\<lambda>c. findCustomization s (cr_customizationId c) \<noteq> None)
                               (ci_customizations e))
         (r_items r)"

section \<open>The order routes as steps on the state\<close>





definition linesOf :: "state \<Rightarrow> int \<Rightarrow> OrderItem list" where
  "linesOf s k = filter (\<lambda>i. oi_orderId i = k) (orderItems s)"

definition customizationLinesOf :: "state \<Rightarrow> int \<Rightarrow> OrderItemCustomization list list" where
  "customizationLinesOf s k =
     map (\<lambda>i. filter (\<lambda>c. oic_orderItemId c = oi_id i) (orderItemCustomizations s)) (linesOf s k)"

section \<open>Example data\<close>

text \<open>
  Two active locations and a closed one; a burger (10.00) with an extra-cheese
  customization (2.00) at location 1, a soup at location 2, and a salad at location 2
  that is switched off. Three users: a customer (7), another customer (8) and a cook (9).
  Order 1 is pending: two burgers with one extra cheese each. Order 2 is completed: one
  burger. Both belong to user 7. The time is 100.
\<close>

definition burger :: Menu where
  "burger = \<lparr>m_id = 1, m_title = ''Burger'', m_price = 10, m_isAvailable = True, m_locationId = 1\<rparr>"

definition soup :: Menu where
  "soup = \<lparr>m_id = 2, m_title = ''Soup'', m_price = 5, m_isAvailable = True, m_locationId = 2\<rparr>"

definition salad :: Menu where
  "salad = \<lparr>m_id = 3, m_title = ''Salad'', m_price = 7, m_isAvailable = False, m_locationId = 2\<rparr>"

definition cheese :: Customization where
  "cheese = \<lparr>c_id = 1, c_price = 2, c_menuId = 1\<rparr>"

definition order1 :: Order where
  "order1 = \<lparr>o_id = 1, o_status = PENDING, o_total = 24, o_locationId = 1, o_userId = 7,
             o_createdAt = 10, o_updatedAt = 10\<rparr>"

definition order2 :: Order where
  "order2 = \<lparr>o_id = 2, o_status = COMPLETED, o_total = 10, o_locationId = 1, o_userId = 7,
             o_createdAt = 20, o_updatedAt = 30\<rparr>"

definition line1 :: OrderItem where
  "line1 = \<lparr>oi_id = 1, oi_orderId = 1, oi_menuId = 1, oi_quantity = 2, oi_priceAtTime = 10\<rparr>"

definition line2 :: OrderItem where
  "line2 = \<lparr>oi_id = 2, oi_orderId = 2, oi_menuId = 1, oi_quantity = 1, oi_priceAtTime = 10\<rparr>"

definition extra1 :: OrderItemCustomization where
  "extra1 = \<lparr>oic_id = 1, oic_orderItemId = 1, oic_customizationId = 1, oic_quantity = 1,
             oic_priceAtTime = 2\<rparr>"

definition demo :: state where
  "demo = \<lparr>locations = [\<lparr>l_id = 1, l_isActive = True\<rparr>, \<lparr>l_id = 2, l_isActive = True\<rparr>,
                        \<lparr>l_id = 3, l_isActive = False\<rparr>],
            menus = [burger, soup, salad],
            customizations = [cheese],
            users = [\<lparr>u_id = 7, u_email = ''owner@example.org'', u_password = ''$2a$12$owner'',
                      u_role = CUSTOMER, u_loyaltyPoints = 0\<rparr>,
                     \<lparr>u_id = 8, u_email = ''stranger@example.org'', u_password = ''$2a$12$stranger'',
                      u_role = CUSTOMER, u_loyaltyPoints = 0\<rparr>,
                     \<lparr>u_id = 9, u_email = ''cook@example.org'', u_password = ''$2a$12$cook'',
                      u_role = KITCHEN, u_loyaltyPoints = 0\<rparr>],
            orders = [order1, order2],
            orderItems = [line1, line2],
            orderItemCustomizations = [extra1],
            emitted = [],
            clock = 100\<rparr>"

definition owner :: AuthUser where
  "owner = \<lparr>a_id = 7, a_email = ''owner@example.org'', a_role = CUSTOMER\<rparr>"

definition stranger :: AuthUser where
  "stranger = \<lparr>a_id = 8, a_email = ''stranger@example.org'', a_role = CUSTOMER\<rparr>"

definition cook :: AuthUser where
  "cook = \<lparr>a_id = 9, a_email = ''cook@example.org'', a_role = KITCHEN\<rparr>"

text \<open>
  Two \<^verbatim>\<open>Int\<close> columns: one that takes the integers of 32 bits and throws on every other
  number, and one that cuts a fraction off instead of throwing.
\<close>

definition int32 :: intColumn where
  "int32 x = (if x = real_of_int \<lfloor>x\<rfloor> \<and> - 2147483648 \<le> x \<and> x \<le> 2147483647
              then Some \<lfloor>x\<rfloor> else None)"


text \<open>
  A cart of two burgers, each with three extra cheese, ordered at location 1.
  \<open>firstRejection\<close> is the race in which the first rejection in list order settles
  first.
\<close>

definition cheeseburgers :: CreateOrderRequest where
  "cheeseburgers = \<lparr>r_locationId = 1,
     r_items = [\<lparr>ci_menuId = 1, ci_quantity = 2,
                 ci_customizations = [\<lparr>cr_customizationId = 1, cr_quantity = JNumber 3\<rparr>]\<rparr>]\<rparr>"

definition firstRejection :: race where
  "firstRejection = (\<lambda>es. 0)"

text \<open>
  Further requests: soup (location 2) ordered together with a burger at location 1; the
  switched-off salad ordered at location 1 and at its own location 2; a cart naming a menu
  id that does not exist; a burger with extra cheese at quantity 0, at quantity null and
  at quantity 1.5; a cart whose customization quantities are absent, zero, negative,
  null, false and the empty string.
\<close>

definition soupAtBurgerPlace :: CreateOrderRequest where
  "soupAtBurgerPlace = \<lparr>r_locationId = 1,
     r_items = [\<lparr>ci_menuId = 1, ci_quantity = 1, ci_customizations = []\<rparr>,
                \<lparr>ci_menuId = 2, ci_quantity = 1, ci_customizations = []\<rparr>]\<rparr>"

definition saladAtBurgerPlace :: CreateOrderRequest where
  "saladAtBurgerPlace = \<lparr>r_locationId = 1,
     r_items = [\<lparr>ci_menuId = 3, ci_quantity = 1, ci_customizations = []\<rparr>]\<rparr>"

definition saladOrder :: CreateOrderRequest where
  "saladOrder = \<lparr>r_locationId = 2,
     r_items = [\<lparr>ci_menuId = 3, ci_quantity = 1, ci_customizations = []\<rparr>]\<rparr>"

definition ghostOrder :: CreateOrderRequest where
  "ghostOrder = \<lparr>r_locationId = 2,
     r_items = [\<lparr>ci_menuId = 2, ci_quantity = 1, ci_customizations = []\<rparr>,
                \<lparr>ci_menuId = 99, ci_quantity = 1, ci_customizations = []\<rparr>]\<rparr>"

definition burgerWithCheese :: "jsvalue \<Rightarrow> CreateOrderRequest" where
  "burgerWithCheese v = \<lparr>r_locationId = 1,
     r_items = [\<lparr>ci_menuId = 1, ci_quantity = 1,
                 ci_customizations = [\<lparr>cr_customizationId = 1, cr_quantity = v\<rparr>]\<rparr>]\<rparr>"


text \<open>
  A registration environment with stand-ins for the library functions, and a sign-up that
  asks for the ADMIN role.
\<close>

definition demoEnv :: registerEnv where
  "demoEnv = \<lparr>isEmail = (\<lambda>x. CHR ''@'' \<in> set x), normalizeEmail = (\<lambda>x. x),
               bcryptHash = (\<lambda>x. ''$2a$12$'' @ x), JWT_SECRET = Some ''secret''\<rparr>"

definition adminSignup :: RegisterRequest where
  "adminSignup = \<lparr>g_email = ''mallory@example.org'', g_password = ''hunter22'',
                   g_role = Some ''ADMIN''\<rparr>"

section \<open>Lemmas on the status update\<close>

lemma statusOfString_statusName: "statusOfString (statusName st) = Some st"
  by (cases st) (simp_all add: statusOfString_def)

lemma updateStatus_found:
  "find (\<lambda>x. o_id x = k) os = Some ord \<Longrightarrow>
   \<exists>os'. updateStatus k st now os = Some (os', ord\<lparr>o_status := st, o_updatedAt := now\<rparr>)
     \<and> find (\<lambda>x. o_id x = k) os' = Some (ord\<lparr>o_status := st, o_updatedAt := now\<rparr>)
     \<and> (\<forall>j. j \<noteq> k \<longrightarrow> find (\<lambda>x. o_id x = j) os' = find (\<lambda>x. o_id x = j) os)
     \<and> length os' = length os"
  by (induction os) (auto split: if_splits)

lemma updateStatus_missing:
  "find (\<lambda>x. o_id x = k) os = None \<Longrightarrow> updateStatus k st now os = None"
  by (induction os) (auto split: if_splits)

lemma findOrder_demo:
  "findOrder demo 1 = Some order1" "findOrder demo 2 = Some order2"
  by (simp_all add: findOrder_def demo_def order1_def order2_def)

section \<open>Set status\<close>

text \<open>
  C4. A caller whose role is neither KITCHEN nor ADMIN gets Forbidden (``Insufficient
  permissions'', 403) and the state, hence the order, is unchanged. For a KITCHEN or ADMIN
  caller and any of the four statuses as the requested value, the order's status becomes
  that value whatever it was before; the update stamps the row's \<^verbatim>\<open>updatedAt\<close> with
  the time, and the row is otherwise the same.
\<close>

theorem set_status_gate:
  "(a_role u \<noteq> KITCHEN \<and> a_role u \<noteq> ADMIN \<longrightarrow>
      setOrderStatus s (Token u) k x = (s, Inl InsufficientPermissions)
      \<and> statusCode InsufficientPermissions = Some 403)
   \<and> ((a_role u = KITCHEN \<or> a_role u = ADMIN) \<and> findOrder s k = Some ord \<longrightarrow>
      (\<exists>s' p. setOrderStatus s (Token u) k (statusName st) = (s', Inr p)
         \<and> findOrder s' k = Some (ord\<lparr>o_status := st, o_updatedAt := clock s\<rparr>)
         \<and> h_order p = ord\<lparr>o_status := st, o_updatedAt := clock s\<rparr>))"
proof (intro conjI impI)
  assume "a_role u \<noteq> KITCHEN \<and> a_role u \<noteq> ADMIN"
  then show "setOrderStatus s (Token u) k x = (s, Inl InsufficientPermissions)"
    by (simp add: setOrderStatus_def requireKitchenOrAdmin_def requireRole_def)
next
  show "statusCode InsufficientPermissions = Some 403" by simp
next
  assume a: "(a_role u = KITCHEN \<or> a_role u = ADMIN) \<and> findOrder s k = Some ord"
  then obtain os' where
    u: "updateStatus k st (clock s) (orders s)
          = Some (os', ord\<lparr>o_status := st, o_updatedAt := clock s\<rparr>)"
    and f: "find (\<lambda>x. o_id x = k) os' = Some (ord\<lparr>o_status := st, o_updatedAt := clock s\<rparr>)"
    using updateStatus_found [of k "orders s" ord st "clock s"] by (auto simp: findOrder_def)
  from a have r: "requireKitchenOrAdmin u"
    by (auto simp: requireKitchenOrAdmin_def requireRole_def)
  show "\<exists>s' p. setOrderStatus s (Token u) k (statusName st) = (s', Inr p)
         \<and> findOrder s' k = Some (ord\<lparr>o_status := st, o_updatedAt := clock s\<rparr>)
         \<and> h_order p = ord\<lparr>o_status := st, o_updatedAt := clock s\<rparr>"
    using u f r
    by (simp add: setOrderStatus_def statusOfString_statusName Let_def findOrder_def
        emit_def hydrate_def)
qed

theorem set_status_gate_witness:
  "setOrderStatus demo (Token owner) 2 ''IN_PROGRESS'' = (demo, Inl InsufficientPermissions)
   \<and> (\<exists>s' p. setOrderStatus demo (Token cook) 2 ''PENDING'' = (s', Inr p)
         \<and> findOrder s' 2 = Some (order2\<lparr>o_status := PENDING, o_updatedAt := 100\<rparr>)
         \<and> h_order p = order2\<lparr>o_status := PENDING, o_updatedAt := 100\<rparr>)"
proof -
  have c: "clock demo = 100" by (simp add: demo_def)
  show ?thesis
    using set_status_gate [of owner demo 2 "''IN_PROGRESS''" order2 PENDING]
          set_status_gate [of cook demo 2 "''PENDING''" order2 PENDING]
    by (simp add: findOrder_demo owner_def cook_def c)
qed

section \<open>Cancel\<close>

text \<open>
  C3. For a cancel request on an existing order, in the order the handler checks:
  a CUSTOMER who does not own the order gets Forbidden (``Not authorized to cancel this
  order'', 403); an order that is not PENDING is left as it is and the request fails,
  with InvalidTransition (``Can only cancel pending orders'', 400) unless the Forbidden
  case applies; a PENDING order cancelled by its owner or by any caller who is not a
  CUSTOMER becomes CANCELLED, its \<^verbatim>\<open>updatedAt\<close> stamped with the time.
\<close>

theorem cancel_cases:
  assumes "findOrder s k = Some ord"
  shows "(a_role u = CUSTOMER \<and> o_userId ord \<noteq> a_id u \<longrightarrow>
            cancelOrder s (Token u) k = (s, Inl NotAuthorizedToCancel)
            \<and> statusCode NotAuthorizedToCancel = Some 403)
       \<and> (o_status ord \<noteq> PENDING \<longrightarrow>
            cancelOrder s (Token u) k =
              (s, Inl (if a_role u = CUSTOMER \<and> o_userId ord \<noteq> a_id u
                       then NotAuthorizedToCancel else CanOnlyCancelPending))
            \<and> statusCode CanOnlyCancelPending = Some 400)
       \<and> (o_status ord = PENDING \<and> (o_userId ord = a_id u \<or> a_role u \<noteq> CUSTOMER) \<longrightarrow>
            (\<exists>s' p. cancelOrder s (Token u) k = (s', Inr p)
               \<and> findOrder s' k = Some (ord\<lparr>o_status := CANCELLED, o_updatedAt := clock s\<rparr>)
               \<and> h_order p = ord\<lparr>o_status := CANCELLED, o_updatedAt := clock s\<rparr>))"
proof (intro conjI impI)
  assume "a_role u = CUSTOMER \<and> o_userId ord \<noteq> a_id u"
  with assms show "cancelOrder s (Token u) k = (s, Inl NotAuthorizedToCancel)"
    by (simp add: cancelOrder_def)
next
  assume "o_status ord \<noteq> PENDING"
  with assms show "cancelOrder s (Token u) k =
      (s, Inl (if a_role u = CUSTOMER \<and> o_userId ord \<noteq> a_id u
               then NotAuthorizedToCancel else CanOnlyCancelPending))"
    by (simp add: cancelOrder_def)
next
  assume a: "o_status ord = PENDING \<and> (o_userId ord = a_id u \<or> a_role u \<noteq> CUSTOMER)"
  obtain os' where
    u: "updateStatus k CANCELLED (clock s) (orders s)
          = Some (os', ord\<lparr>o_status := CANCELLED, o_updatedAt := clock s\<rparr>)"
    and f: "find (\<lambda>x. o_id x = k) os'
          = Some (ord\<lparr>o_status := CANCELLED, o_updatedAt := clock s\<rparr>)"
    using updateStatus_found [of k "orders s" ord CANCELLED "clock s"] assms
    by (auto simp: findOrder_def)
  show "\<exists>s' p. cancelOrder s (Token u) k = (s', Inr p)
               \<and> findOrder s' k = Some (ord\<lparr>o_status := CANCELLED, o_updatedAt := clock s\<rparr>)
               \<and> h_order p = ord\<lparr>o_status := CANCELLED, o_updatedAt := clock s\<rparr>"
    using u f a assms
    by (auto simp add: cancelOrder_def Let_def findOrder_def emit_def hydrate_def)
qed simp_all

theorem cancel_cases_witness:
  "cancelOrder demo (Token stranger) 1 = (demo, Inl NotAuthorizedToCancel)
   \<and> cancelOrder demo (Token owner) 2 = (demo, Inl CanOnlyCancelPending)
   \<and> cancelOrder demo (Token stranger) 2 = (demo, Inl NotAuthorizedToCancel)
   \<and> (\<exists>s' p. cancelOrder demo (Token owner) 1 = (s', Inr p)
         \<and> findOrder s' 1 = Some (order1\<lparr>o_status := CANCELLED, o_updatedAt := 100\<rparr>)
         \<and> h_order p = order1\<lparr>o_status := CANCELLED, o_updatedAt := 100\<rparr>)
   \<and> (\<exists>s' p. cancelOrder demo (Token cook) 1 = (s', Inr p)
         \<and> findOrder s' 1 = Some (order1\<lparr>o_status := CANCELLED, o_updatedAt := 100\<rparr>)
         \<and> h_order p = order1\<lparr>o_status := CANCELLED, o_updatedAt := 100\<rparr>)"
proof -
  have c: "clock demo = 100" by (simp add: demo_def)
  show ?thesis
    using cancel_cases [OF findOrder_demo(1), of stranger]
          cancel_cases [OF findOrder_demo(2), of owner]
          cancel_cases [OF findOrder_demo(2), of stranger]
          cancel_cases [OF findOrder_demo(1), of owner]
          cancel_cases [OF findOrder_demo(1), of cook]
    by (simp add: owner_def stranger_def cook_def order1_def order2_def c)
qed

section \<open>Lemmas on order creation\<close>

lemma foldl_jsAdd_Some: "foldl jsAdd (Some a) (map Some xs) = Some (a + sum_list xs)"
  by (induction xs arbitrary: a) (simp_all add: jsAdd_def add.assoc)

lemma promiseAll_all_fulfilled:
  assumes "\<And>x. x \<in> set xs \<Longrightarrow> f x = Inr (g x)"
  shows "promiseAll rc (map f xs) = Inr (map g xs)"
proof -
  have "rejections (map f xs) = [] \<and> fulfilled (map f xs) = map g xs"
    using assms by (induction xs) (simp_all add: rejections_def fulfilled_def)
  then show ?thesis by (simp add: promiseAll_def)
qed

lemma race_pick_mem: "es \<noteq> [] \<Longrightarrow> es ! (n mod length es) \<in> set es"
  by simp

lemma promiseAll_rejects:
  "promiseAll rc rs = Inl e \<Longrightarrow> e \<in> set (rejections rs)"
proof (cases "rejections rs")
  case Nil
  then show "promiseAll rc rs = Inl e \<Longrightarrow> e \<in> set (rejections rs)"
    by (simp add: promiseAll_def)
next
  case (Cons a es)
  assume "promiseAll rc rs = Inl e"
  with Cons have "e = (a # es) ! (rc (a # es) mod length (a # es))"
    by (simp add: promiseAll_def)
  then have "e \<in> set (a # es)"
    using race_pick_mem [of "a # es"] by simp
  with Cons show "e \<in> set (rejections rs)" by simp
qed

lemma promiseAll_some_rejection:
  assumes "rejections rs \<noteq> []"
  shows "\<exists>e. promiseAll rc rs = Inl e \<and> e \<in> set (rejections rs)"
proof -
  from assms obtain a es where c: "rejections rs = a # es" by (cases "rejections rs") auto
  then have "promiseAll rc rs = Inl ((a # es) ! (rc (a # es) mod length (a # es)))"
    by (simp add: promiseAll_def)
  then show ?thesis using promiseAll_rejects by blast
qed

lemma toNumber_plain:
  "plainQuantity (cr_quantity c) \<Longrightarrow>
   toNumber (customizationQuantity c) = Some (countedQuantity (cr_quantity c))"
  by (cases "cr_quantity c")
     (auto simp: plainQuantity_def countsAsOne_def customizationQuantity_def)

lemma writeInt_plain:
  assumes "plainQuantity (cr_quantity c)" and "storesAsIs col (countedQuantity (cr_quantity c))"
  shows "\<exists>q. writeInt col (customizationQuantity c) = Some q
           \<and> real_of_int q = countedQuantity (cr_quantity c)"
proof -
  from assms(1) have "customizationQuantity c = JNumber (countedQuantity (cr_quantity c))"
    by (cases "cr_quantity c")
       (auto simp: plainQuantity_def countsAsOne_def customizationQuantity_def)
  with assms(2) show ?thesis
    by (auto simp: storesAsIs_def split: option.splits)
qed

lemma storesAsIs_int: "storesAsIs col (real_of_int n) \<Longrightarrow> col (real_of_int n) = Some n"
  by (auto simp: storesAsIs_def split: option.splits)

lemma find_filter: "find P xs = (case filter P xs of [] \<Rightarrow> None | x # ys \<Rightarrow> Some x)"
  by (induction xs) simp_all

lemma find_first_row: "filter P xs = x # ys \<Longrightarrow> Q x \<Longrightarrow> find (\<lambda>y. P y \<and> Q y) xs = Some x"
  by (induction xs) (auto split: if_splits)

lemma findCustomization_row: "findCustomization s k = customizationRow s k"
  by (simp add: findCustomization_def customizationRow_def find_filter)

lemma findAvailableMenu_row:
  "menuRow s k = Some m \<Longrightarrow> m_isAvailable m \<Longrightarrow> findAvailableMenu s k = Some m"
  by (auto simp: menuRow_def findAvailableMenu_def find_first_row split: list.splits)

lemma findActiveLocation_ex:
  "list_ex (\<lambda>l. l_id l = k \<and> l_isActive l) (locations s) \<Longrightarrow> findActiveLocation s k \<noteq> None"
  by (auto simp: findActiveLocation_def find_None_iff list_ex_iff)

lemma entryResolves_found:
  assumes "entryResolves s loc e"
  shows "\<exists>m. menuRow s (ci_menuId e) = Some m \<and> findAvailableMenu s (ci_menuId e) = Some m
           \<and> m_locationId m = loc"
    and "list_all (\<lambda>c. findCustomization s (cr_customizationId c) \<noteq> None) (ci_customizations e)"
  using assms
  by (auto simp: entryResolves_def findCustomization_row findAvailableMenu_row split: option.splits)

lemma customizationCost_found:
  "findCustomization s (cr_customizationId c) \<noteq> None \<Longrightarrow>
   customizationCost s c =
     Inr (jsMul (Some (customizationUnitPrice s c)) (toNumber (customizationQuantity c)))"
  by (auto simp: customizationCost_def customizationUnitPrice_def findCustomization_row)

lemma customizationCost_resolved:
  "findCustomization s (cr_customizationId c) \<noteq> None \<Longrightarrow> plainQuantity (cr_quantity c) \<Longrightarrow>
   customizationCost s c
     = Inr (Some (customizationUnitPrice s c * countedQuantity (cr_quantity c)))"
  by (simp add: customizationCost_found toNumber_plain jsMul_def)

lemma priceItem_succeeds:
  assumes m: "findAvailableMenu s (ci_menuId e) = Some m" "m_locationId m = loc"
    and cs: "list_all (\<lambda>c. findCustomization s (cr_customizationId c) \<noteq> None) (ci_customizations e)"
  shows "\<exists>p. priceItem rc s loc e = Inr p"
proof -
  have pa: "promiseAll rc (map (customizationCost s) (ci_customizations e)) =
      Inr (map (\<lambda>c. jsMul (Some (customizationUnitPrice s c)) (toNumber (customizationQuantity c)))
             (ci_customizations e))"
    using cs by (intro promiseAll_all_fulfilled customizationCost_found) (simp add: list_all_iff)
  show ?thesis
    using m pa by (simp add: priceItem_def)
qed

lemma priceItem_resolvable:
  "resolvable s loc e \<Longrightarrow> \<exists>p. priceItem rc s loc e = Inr p"
  using priceItem_succeeds [of s e _ loc rc] by (auto simp: resolvable_def split: option.splits)

lemma priceItem_entryResolves:
  assumes "entryResolves s loc e"
    and "list_all (\<lambda>c. plainQuantity (cr_quantity c)) (ci_customizations e)"
  shows "\<exists>m. findAvailableMenu s (ci_menuId e) = Some m \<and>
     priceItem rc s loc e = Inr \<lparr>p_item = e, p_menuItem = m, p_itemTotal = Some (lineTotal s e)\<rparr>"
proof -
  from entryResolves_found [OF assms(1)] obtain m where
    m: "findAvailableMenu s (ci_menuId e) = Some m" "m_locationId m = loc"
    and mr: "menuRow s (ci_menuId e) = Some m"
    and cs: "list_all (\<lambda>c. findCustomization s (cr_customizationId c) \<noteq> None) (ci_customizations e)"
    by blast
  have pa: "promiseAll rc (map (customizationCost s) (ci_customizations e)) =
      Inr (map (\<lambda>c. Some (customizationUnitPrice s c * countedQuantity (cr_quantity c)))
             (ci_customizations e))"
    using cs assms(2)
    by (intro promiseAll_all_fulfilled customizationCost_resolved) (simp_all add: list_all_iff)
  have sum: "foldl jsAdd (Some 0)
        (map (\<lambda>c. Some (customizationUnitPrice s c * countedQuantity (cr_quantity c)))
           (ci_customizations e))
      = Some (\<Sum>c\<leftarrow>ci_customizations e. customizationUnitPrice s c * countedQuantity (cr_quantity c))"
    using foldl_jsAdd_Some [of 0 "map (\<lambda>c. customizationUnitPrice s c * countedQuantity (cr_quantity c))
           (ci_customizations e)"]
    by (simp add: comp_def)
  show ?thesis
    using m mr pa sum by (simp add: priceItem_def lineTotal_def unitPrice_def jsAdd_def jsMul_def)
qed

lemma findCustomization_cong:
  "customizations s' = customizations s \<Longrightarrow> findCustomization s' k = findCustomization s k"
  by (simp add: findCustomization_def)

lemma customizationUnitPrice_cong:
  "customizations s' = customizations s \<Longrightarrow> customizationUnitPrice s' c = customizationUnitPrice s c"
  by (simp add: customizationUnitPrice_def customizationRow_def)

lemma insertCustomizations_rows:
  assumes "list_all (\<lambda>c. findCustomization s (cr_customizationId c) \<noteq> None) cs"
    and "list_all (\<lambda>c. plainQuantity (cr_quantity c)
                      \<and> storesAsIs col (countedQuantity (cr_quantity c))) cs"
  shows "\<exists>rows. insertCustomizations col s j cs =
            Inr (s\<lparr>orderItemCustomizations := orderItemCustomizations s @ rows\<rparr>)
         \<and> map (\<lambda>x. (oic_orderItemId x, oic_customizationId x, real_of_int (oic_quantity x),
                     oic_priceAtTime x)) rows
           = map (\<lambda>c. (j, cr_customizationId c, countedQuantity (cr_quantity c),
                       customizationUnitPrice s c)) cs"
  using assms
proof (induction cs arbitrary: s)
  case Nil
  show ?case by simp
next
  case (Cons c cs)
  from Cons.prems(1) obtain x where x: "findCustomization s (cr_customizationId c) = Some x"
    by auto
  from Cons.prems(2) writeInt_plain [of c col] obtain q where
    q: "writeInt col (customizationQuantity c) = Some q"
       "real_of_int q = countedQuantity (cr_quantity c)"
    by auto
  define row where "row = \<lparr>oic_id = nextId (map oic_id (orderItemCustomizations s)),
      oic_orderItemId = j, oic_customizationId = cr_customizationId c,
      oic_quantity = q, oic_priceAtTime = c_price x\<rparr>"
  define s1 where "s1 = s\<lparr>orderItemCustomizations := orderItemCustomizations s @ [row]\<rparr>"
  have same: "customizations s1 = customizations s" by (simp add: s1_def)
  have "list_all (\<lambda>c. findCustomization s1 (cr_customizationId c) \<noteq> None) cs"
    using Cons.prems(1) by (simp add: findCustomization_cong [OF same])
  moreover have "list_all (\<lambda>c. plainQuantity (cr_quantity c)
                      \<and> storesAsIs col (countedQuantity (cr_quantity c))) cs"
    using Cons.prems(2) by simp
  ultimately obtain rows where
    r: "insertCustomizations col s1 j cs
          = Inr (s1\<lparr>orderItemCustomizations := orderItemCustomizations s1 @ rows\<rparr>)"
    and m: "map (\<lambda>x. (oic_orderItemId x, oic_customizationId x, real_of_int (oic_quantity x),
                     oic_priceAtTime x)) rows
           = map (\<lambda>c. (j, cr_customizationId c, countedQuantity (cr_quantity c),
                       customizationUnitPrice s1 c)) cs"
    using Cons.IH [of s1] by blast
  have step: "insertCustomizations col s j (c # cs) = insertCustomizations col s1 j cs"
    using x q(1) by (simp add: s1_def row_def)
  have "insertCustomizations col s j (c # cs)
      = Inr (s\<lparr>orderItemCustomizations := orderItemCustomizations s @ (row # rows)\<rparr>)"
    unfolding step using r by (simp add: s1_def)
  moreover have "map (\<lambda>x. (oic_orderItemId x, oic_customizationId x, real_of_int (oic_quantity x),
                     oic_priceAtTime x)) (row # rows)
      = map (\<lambda>c. (j, cr_customizationId c, countedQuantity (cr_quantity c),
                  customizationUnitPrice s c)) (c # cs)"
  proof -
    have "customizationUnitPrice s c = c_price x"
      using x by (simp add: customizationUnitPrice_def findCustomization_row)
    then show ?thesis
      using m q(2) by (simp add: row_def customizationUnitPrice_cong [OF same])
  qed
  ultimately show ?case by blast
qed

lemma insertItems_rows:
  assumes "list_all (\<lambda>p. list_all (\<lambda>c. findCustomization s (cr_customizationId c) \<noteq> None)
                              (ci_customizations (p_item p))) ps"
    and "list_all (\<lambda>p. storesAsIs col (real_of_int (ci_quantity (p_item p)))
                      \<and> list_all (\<lambda>c. plainQuantity (cr_quantity c)
                                     \<and> storesAsIs col (countedQuantity (cr_quantity c)))
                          (ci_customizations (p_item p))) ps"
  shows "\<exists>lines crows. insertItems col s k ps =
            Inr (s\<lparr>orderItems := orderItems s @ lines,
                   orderItemCustomizations := orderItemCustomizations s @ crows\<rparr>)
         \<and> map (\<lambda>l. (oi_orderId l, oi_menuId l, oi_quantity l, oi_priceAtTime l)) lines
           = map (\<lambda>p. (k, ci_menuId (p_item p), ci_quantity (p_item p), m_price (p_menuItem p))) ps
         \<and> map (\<lambda>x. (oic_customizationId x, real_of_int (oic_quantity x), oic_priceAtTime x)) crows
           = concat (map (\<lambda>p. map (\<lambda>c. (cr_customizationId c, countedQuantity (cr_quantity c),
                                            customizationUnitPrice s c))
                                 (ci_customizations (p_item p))) ps)
         \<and> map oic_orderItemId crows
           = concat (map (\<lambda>(l, p). replicate (length (ci_customizations (p_item p))) (oi_id l))
                         (zip lines ps))"
  using assms
proof (induction ps arbitrary: s)
  case Nil
  show ?case by simp
next
  case (Cons p ps)
  from Cons.prems(2) have cq: "col (real_of_int (ci_quantity (p_item p))) = Some (ci_quantity (p_item p))"
    by (simp add: storesAsIs_int)
  define line where "line = \<lparr>oi_id = nextId (map oi_id (orderItems s)), oi_orderId = k,
      oi_menuId = ci_menuId (p_item p), oi_quantity = ci_quantity (p_item p),
      oi_priceAtTime = m_price (p_menuItem p)\<rparr>"
  define s1 where "s1 = s\<lparr>orderItems := orderItems s @ [line]\<rparr>"
  have same1: "customizations s1 = customizations s" by (simp add: s1_def)
  have "list_all (\<lambda>c. findCustomization s1 (cr_customizationId c) \<noteq> None) (ci_customizations (p_item p))"
    using Cons.prems(1) by (simp add: findCustomization_cong [OF same1])
  moreover have "list_all (\<lambda>c. plainQuantity (cr_quantity c)
                      \<and> storesAsIs col (countedQuantity (cr_quantity c)))
                   (ci_customizations (p_item p))"
    using Cons.prems(2) by simp
  ultimately obtain rows where
    ic: "insertCustomizations col s1 (oi_id line) (ci_customizations (p_item p))
           = Inr (s1\<lparr>orderItemCustomizations := orderItemCustomizations s1 @ rows\<rparr>)"
    and rm: "map (\<lambda>x. (oic_orderItemId x, oic_customizationId x, real_of_int (oic_quantity x),
                       oic_priceAtTime x)) rows
           = map (\<lambda>c. (oi_id line, cr_customizationId c, countedQuantity (cr_quantity c),
                       customizationUnitPrice s1 c))
               (ci_customizations (p_item p))"
    using insertCustomizations_rows [of s1 "ci_customizations (p_item p)" col "oi_id line"]
    by blast
  define s2 where "s2 = s1\<lparr>orderItemCustomizations := orderItemCustomizations s1 @ rows\<rparr>"
  have same2: "customizations s2 = customizations s" by (simp add: s2_def s1_def)
  have "list_all (\<lambda>p. list_all (\<lambda>c. findCustomization s2 (cr_customizationId c) \<noteq> None)
                              (ci_customizations (p_item p))) ps"
    using Cons.prems(1) by (simp add: findCustomization_cong [OF same2])
  moreover have "list_all (\<lambda>p. storesAsIs col (real_of_int (ci_quantity (p_item p)))
                      \<and> list_all (\<lambda>c. plainQuantity (cr_quantity c)
                                     \<and> storesAsIs col (countedQuantity (cr_quantity c)))
                          (ci_customizations (p_item p))) ps"
    using Cons.prems(2) by simp
  ultimately obtain lines crows where
    ii: "insertItems col s2 k ps = Inr (s2\<lparr>orderItems := orderItems s2 @ lines,
                   orderItemCustomizations := orderItemCustomizations s2 @ crows\<rparr>)"
    and lm: "map (\<lambda>l. (oi_orderId l, oi_menuId l, oi_quantity l, oi_priceAtTime l)) lines
           = map (\<lambda>p. (k, ci_menuId (p_item p), ci_quantity (p_item p), m_price (p_menuItem p))) ps"
    and cm: "map (\<lambda>x. (oic_customizationId x, real_of_int (oic_quantity x), oic_priceAtTime x)) crows
           = concat (map (\<lambda>p. map (\<lambda>c. (cr_customizationId c, countedQuantity (cr_quantity c),
                                            customizationUnitPrice s2 c))
                                 (ci_customizations (p_item p))) ps)"
    and om: "map oic_orderItemId crows
           = concat (map (\<lambda>(l, p). replicate (length (ci_customizations (p_item p))) (oi_id l))
                         (zip lines ps))"
    using Cons.IH [of s2] by blast
  have step: "insertItems col s k (p # ps) = insertItems col s2 k ps"
  proof -
    have "insertItems col s k (p # ps) =
        (case insertCustomizations col s1 (oi_id line) (ci_customizations (p_item p)) of
           Inl e \<Rightarrow> Inl e | Inr s2 \<Rightarrow> insertItems col s2 k ps)"
      by (simp add: cq Let_def s1_def line_def)
    then show ?thesis using ic by (simp add: s2_def)
  qed
  have res: "insertItems col s k (p # ps) = Inr (s\<lparr>orderItems := orderItems s @ (line # lines),
                   orderItemCustomizations := orderItemCustomizations s @ (rows @ crows)\<rparr>)"
    unfolding step using ii by (simp add: s2_def s1_def)
  have l: "map (\<lambda>l. (oi_orderId l, oi_menuId l, oi_quantity l, oi_priceAtTime l)) (line # lines)
           = map (\<lambda>p. (k, ci_menuId (p_item p), ci_quantity (p_item p), m_price (p_menuItem p))) (p # ps)"
    using lm by (simp add: line_def)
  have r3: "map (\<lambda>x. (oic_customizationId x, real_of_int (oic_quantity x), oic_priceAtTime x)) rows
      = map (\<lambda>c. (cr_customizationId c, countedQuantity (cr_quantity c), customizationUnitPrice s c))
               (ci_customizations (p_item p))"
  proof -
    have "map (\<lambda>x. (oic_customizationId x, real_of_int (oic_quantity x), oic_priceAtTime x)) rows
      = map (\<lambda>(a, b). b) (map (\<lambda>x. (oic_orderItemId x, oic_customizationId x,
                                     real_of_int (oic_quantity x), oic_priceAtTime x)) rows)"
      by simp
    also have "\<dots> = map (\<lambda>c. (cr_customizationId c, countedQuantity (cr_quantity c),
                              customizationUnitPrice s c))
               (ci_customizations (p_item p))"
      unfolding rm by (simp add: customizationUnitPrice_cong [OF same1])
    finally show ?thesis .
  qed
  have r1: "map oic_orderItemId rows = replicate (length (ci_customizations (p_item p))) (oi_id line)"
  proof -
    have "map oic_orderItemId rows
      = map (\<lambda>(a, b). a) (map (\<lambda>x. (oic_orderItemId x, oic_customizationId x,
                                     real_of_int (oic_quantity x), oic_priceAtTime x)) rows)"
      by simp
    also have "\<dots> = replicate (length (ci_customizations (p_item p))) (oi_id line)"
      unfolding rm by (simp add: comp_def map_replicate_const)
    finally show ?thesis .
  qed
  have c: "map (\<lambda>x. (oic_customizationId x, real_of_int (oic_quantity x), oic_priceAtTime x)) (rows @ crows)
           = concat (map (\<lambda>p. map (\<lambda>c. (cr_customizationId c, countedQuantity (cr_quantity c),
                                            customizationUnitPrice s c))
                                 (ci_customizations (p_item p))) (p # ps))"
    using cm r3 by (simp add: customizationUnitPrice_cong [OF same2])
  have o: "map oic_orderItemId (rows @ crows)
           = concat (map (\<lambda>(l, p). replicate (length (ci_customizations (p_item p))) (oi_id l))
                         (zip (line # lines) (p # ps)))"
    using om r1 by simp
  from res l c o show ?case by blast
qed

lemma fold_max_ge: "a \<le> fold max xs (a::int)" "x \<in> set xs \<Longrightarrow> x \<le> fold max xs a"
  by (induction xs arbitrary: a) (auto intro: order_trans [OF max.cobounded2] order_trans [OF max.cobounded1])

lemma nextId_fresh: "k \<in> set ids \<Longrightarrow> k < nextId ids"
  using fold_max_ge(2) [of k ids 0] by (simp add: nextId_def)

lemma find_append_fresh:
  assumes "\<And>x. x \<in> set xs \<Longrightarrow> \<not> P x" and "P y"
  shows "find P (xs @ [y]) = Some y"
  using assms by (induction xs) simp_all

lemma findOrder_new:
  assumes "orders s' = orders s @ [ord]" and "o_id ord = nextId (map o_id (orders s))"
  shows "findOrder s' (o_id ord) = Some ord"
proof -
  have "\<And>x. x \<in> set (orders s) \<Longrightarrow> o_id x \<noteq> o_id ord"
    using nextId_fresh [of _ "map o_id (orders s)"] assms(2) by fastforce
  then show ?thesis
    unfolding findOrder_def assms(1) by (intro find_append_fresh) auto
qed

lemma priceItem_priced:
  "entryResolves s loc e \<Longrightarrow> list_all (\<lambda>c. plainQuantity (cr_quantity c)) (ci_customizations e) \<Longrightarrow>
   priceItem rc s loc e = Inr \<lparr>p_item = e, p_menuItem = the (findAvailableMenu s (ci_menuId e)),
                               p_itemTotal = Some (lineTotal s e)\<rparr>"
  using priceItem_entryResolves [of s loc e rc] by auto

lemma createOrder_valid:
  assumes "validCart s r" and "storableCart col r" and "storedUser s u"
  shows "\<exists>s' p ord lines crows.
     createOrder rc col s (Token u) r = (s', Inr (Some p))
     \<and> orders s' = orders s @ [ord]
     \<and> ord = \<lparr>o_id = nextId (map o_id (orders s)), o_status = PENDING,
              o_total = cartTotal s (r_items r),
              o_locationId = r_locationId r, o_userId = a_id u,
              o_createdAt = clock s, o_updatedAt = clock s\<rparr>
     \<and> p = hydrate True s' ord
     \<and> emitted s' = emitted s @
           [(LocationRoom (r_locationId r), ''newOrder'', OrderPayload (Some p)),
            (UserRoom (a_id u), ''orderCreated'', OrderPayload (Some p))]
     \<and> orderItems s' = orderItems s @ lines
     \<and> map (\<lambda>l. (oi_orderId l, oi_menuId l, oi_quantity l, oi_priceAtTime l)) lines
         = map (\<lambda>e. (o_id ord, ci_menuId e, ci_quantity e, unitPrice s e)) (r_items r)
     \<and> orderItemCustomizations s' = orderItemCustomizations s @ crows
     \<and> map (\<lambda>x. (oic_customizationId x, real_of_int (oic_quantity x), oic_priceAtTime x)) crows
         = concat (map (\<lambda>e. map (\<lambda>c. (cr_customizationId c, countedQuantity (cr_quantity c),
                                        customizationUnitPrice s c))
                               (ci_customizations e)) (r_items r))
     \<and> map oic_orderItemId crows
         = concat (map (\<lambda>(l, e). replicate (length (ci_customizations e)) (oi_id l))
                       (zip lines (r_items r)))"
proof -
  let ?loc = "r_locationId r" and ?items = "r_items r"
  from assms(1) obtain location where loc: "findActiveLocation s ?loc = Some location"
    using findActiveLocation_ex [of ?loc s] by (auto simp: validCart_def)
  from assms(1) have val: "validateCreate r"
    by (auto simp: validCart_def validateCreate_def list_all_iff)
  from assms(1) have res: "\<And>e. e \<in> set ?items \<Longrightarrow> entryResolves s ?loc e"
    by (auto simp: validCart_def list_all_iff)
  from assms(2) have plain: "\<And>e. e \<in> set ?items \<Longrightarrow>
      list_all (\<lambda>c. plainQuantity (cr_quantity c)) (ci_customizations e)"
    by (auto simp: storableCart_def list_all_iff)
  from assms(3) have fk: "list_ex (\<lambda>x. u_id x = a_id u) (users s)"
    by (simp add: storedUser_def)
  define priced where "priced = (\<lambda>e. \<lparr>p_item = e,
      p_menuItem = the (findAvailableMenu s (ci_menuId e)), p_itemTotal = Some (lineTotal s e)\<rparr>)"
  have pi: "\<And>e. p_item (priced e) = e"
    and pt: "\<And>e. p_itemTotal (priced e) = Some (lineTotal s e)"
    by (simp_all add: priced_def)
  have pp: "\<And>e. e \<in> set ?items \<Longrightarrow> m_price (p_menuItem (priced e)) = unitPrice s e"
  proof -
    fix e assume "e \<in> set ?items"
    from entryResolves_found(1) [OF res [OF this]] obtain m where
      "findAvailableMenu s (ci_menuId e) = Some m" "menuRow s (ci_menuId e) = Some m"
      by blast
    then show "m_price (p_menuItem (priced e)) = unitPrice s e"
      by (simp add: priced_def unitPrice_def)
  qed
  have pa: "promiseAll rc (map (priceItem rc s ?loc) ?items) = Inr (map priced ?items)"
    unfolding priced_def by (intro promiseAll_all_fulfilled priceItem_priced res plain)
  have tot: "foldl jsAdd (Some 0) (map p_itemTotal (map priced ?items)) = Some (cartTotal s ?items)"
    using foldl_jsAdd_Some [of 0 "map (lineTotal s) ?items"]
    by (simp add: cartTotal_def comp_def pt)
  define ord where "ord = \<lparr>o_id = nextId (map o_id (orders s)), o_status = PENDING,
              o_total = cartTotal s ?items, o_locationId = ?loc, o_userId = a_id u,
              o_createdAt = clock s, o_updatedAt = clock s\<rparr>"
  define s0 where "s0 = s\<lparr>orders := orders s @ [ord]\<rparr>"
  have same0: "customizations s0 = customizations s" by (simp add: s0_def)
  have "list_all (\<lambda>p. list_all (\<lambda>c. findCustomization s0 (cr_customizationId c) \<noteq> None)
                              (ci_customizations (p_item p))) (map priced ?items)"
    using entryResolves_found(2) [OF res]
    by (simp add: list_all_iff pi findCustomization_cong [OF same0])
  moreover have "list_all (\<lambda>p. storesAsIs col (real_of_int (ci_quantity (p_item p)))
                      \<and> list_all (\<lambda>c. plainQuantity (cr_quantity c)
                                     \<and> storesAsIs col (countedQuantity (cr_quantity c)))
                          (ci_customizations (p_item p))) (map priced ?items)"
    using assms(2) by (simp add: storableCart_def list_all_iff pi)
  ultimately obtain lines crows where
    ii: "insertItems col s0 (o_id ord) (map priced ?items) =
            Inr (s0\<lparr>orderItems := orderItems s0 @ lines,
                   orderItemCustomizations := orderItemCustomizations s0 @ crows\<rparr>)"
    and lm: "map (\<lambda>l. (oi_orderId l, oi_menuId l, oi_quantity l, oi_priceAtTime l)) lines
           = map (\<lambda>p. (o_id ord, ci_menuId (p_item p), ci_quantity (p_item p), m_price (p_menuItem p)))
               (map priced ?items)"
    and cm: "map (\<lambda>x. (oic_customizationId x, real_of_int (oic_quantity x), oic_priceAtTime x)) crows
           = concat (map (\<lambda>p. map (\<lambda>c. (cr_customizationId c, countedQuantity (cr_quantity c),
                                            customizationUnitPrice s0 c))
                                 (ci_customizations (p_item p))) (map priced ?items))"
    and om: "map oic_orderItemId crows
           = concat (map (\<lambda>(l, p). replicate (length (ci_customizations (p_item p))) (oi_id l))
                         (zip lines (map priced ?items)))"
    using insertItems_rows [of s0 "map priced ?items" col "o_id ord"] by blast
  define s1 where "s1 = s0\<lparr>orderItems := orderItems s0 @ lines,
                   orderItemCustomizations := orderItemCustomizations s0 @ crows\<rparr>"
  have tx: "orderTransaction col s ?loc (a_id u) (Some (cartTotal s ?items)) (map priced ?items)
      = Inr (s1, ord)"
    using ii fk
    by (simp add: orderTransaction_def Let_def ord_def [symmetric] s0_def [symmetric] s1_def)
  have fo: "findOrder s1 (o_id ord) = Some ord"
    by (rule findOrder_new [of s1 s]) (simp_all add: s1_def s0_def ord_def)
  define p where "p = hydrate True s1 ord"
  define s' where "s' = emit (UserRoom (a_id u)) ''orderCreated'' (OrderPayload (Some p))
                          (emit (LocationRoom ?loc) ''newOrder'' (OrderPayload (Some p)) s1)"
  have run: "createOrder rc col s (Token u) r = (s', Inr (Some p))"
    using val loc pa tot tx fo by (simp add: createOrder_def Let_def s'_def p_def)
  have l2: "map (\<lambda>l. (oi_orderId l, oi_menuId l, oi_quantity l, oi_priceAtTime l)) lines
         = map (\<lambda>e. (o_id ord, ci_menuId e, ci_quantity e, unitPrice s e)) ?items"
    unfolding lm by (simp add: comp_def pi pp)
  have c2: "map (\<lambda>x. (oic_customizationId x, real_of_int (oic_quantity x), oic_priceAtTime x)) crows
         = concat (map (\<lambda>e. map (\<lambda>c. (cr_customizationId c, countedQuantity (cr_quantity c),
                                        customizationUnitPrice s c))
                               (ci_customizations e)) ?items)"
    unfolding cm by (simp add: comp_def pi customizationUnitPrice_cong [OF same0])
  have o2: "map oic_orderItemId crows
         = concat (map (\<lambda>(l, e). replicate (length (ci_customizations e)) (oi_id l))
                       (zip lines ?items))"
    unfolding om by (simp add: zip_map2 comp_def case_prod_unfold pi)
  have "orders s' = orders s @ [ord]" "orderItems s' = orderItems s @ lines"
    "orderItemCustomizations s' = orderItemCustomizations s @ crows"
    "emitted s' = emitted s @ [(LocationRoom ?loc, ''newOrder'', OrderPayload (Some p)),
                               (UserRoom (a_id u), ''orderCreated'', OrderPayload (Some p))]"
    by (simp_all add: s'_def emit_def s1_def s0_def)
  moreover have "p = hydrate True s' ord"
    by (simp add: p_def s'_def emit_def hydrate_def hydrateItem_def)
  ultimately show ?thesis using run l2 c2 o2 ord_def by blast
qed

lemmas demo_defs = demo_def burger_def soup_def salad_def cheese_def order1_def order2_def
  line1_def line2_def extra1_def

lemmas create_defs = createOrder_def validateCreate_def findActiveLocation_def promiseAll_def
  rejections_def fulfilled_def priceItem_def findAvailableMenu_def firstRejection_def

lemmas run_defs = create_defs customizationCost_def findCustomization_def customizationQuantity_def
  jsMul_def jsAdd_def orderTransaction_def Let_def nextId_def findOrder_def hydrate_def
  hydrateItem_def emit_def

lemmas spec_defs = validCart_def entryResolves_def menuRow_def customizationRow_def unitPrice_def
  customizationUnitPrice_def cartTotal_def lineTotal_def statedTotal_def storableCart_def
  storesAsIs_def plainQuantity_def countsAsOne_def storedUser_def

lemma validCart_cheeseburgers: "validCart demo cheeseburgers"
  by (simp add: spec_defs cheeseburgers_def demo_defs)

lemma storableCart_cheeseburgers: "storableCart int32 cheeseburgers"
  by (simp add: spec_defs cheeseburgers_def int32_def)

lemma storedUser_demo: "storedUser demo owner" "storedUser demo stranger" "storedUser demo cook"
  by (simp_all add: spec_defs demo_def owner_def stranger_def cook_def)

section \<open>The total and the snapshots of a created order\<close>




section \<open>Requests that the tables refuse\<close>

text \<open>
  What the conditions on the caller and on the quantities exclude. A caller whose
  id is no stored user never creates an order. In the example, a valid cart is refused
  when an entry's quantity is beyond the \<^verbatim>\<open>Int\<close> column, and when a customization
  quantity is a string, \<^verbatim>\<open>true\<close>, or an array or object; each time the unit of work is
  rolled back and nothing is stored or pushed.
\<close>

lemma createOrder_unknown_user:
  "\<not> storedUser s u \<Longrightarrow> \<exists>err. createOrder rc col s (Token u) r = (s, Inl err)"
  by (auto simp: createOrder_def orderTransaction_def storedUser_def Let_def
      split: sum.splits option.splits)

lemma createOrder_refused:
  "createOrder firstRejection int32 demo (Token (owner\<lparr>a_id := 42\<rparr>)) cheeseburgers
     = (demo, Inl PrismaTransactionFailed)"
  "createOrder firstRejection int32 demo (Token owner)
     (cheeseburgers\<lparr>r_items := [\<lparr>ci_menuId = 1, ci_quantity = 3000000000, ci_customizations = []\<rparr>]\<rparr>)
     = (demo, Inl PrismaTransactionFailed)"
  "createOrder firstRejection int32 demo (Token owner) (burgerWithCheese (JString ''2''))
     = (demo, Inl PrismaTransactionFailed)"
  "createOrder firstRejection int32 demo (Token owner) (burgerWithCheese (JBool True))
     = (demo, Inl PrismaTransactionFailed)"
  "createOrder firstRejection int32 demo (Token owner) (burgerWithCheese JCompound)
     = (demo, Inl PrismaTransactionFailed)"
  by (simp_all add: run_defs int32_def cheeseburgers_def burgerWithCheese_def owner_def demo_defs)

section \<open>Lemmas on failing order creation\<close>

lemma rejections_mem:
  "err \<in> set (rejections (map f xs)) \<longleftrightarrow> (\<exists>x\<in>set xs. f x = Inl err)"
  by (induction xs) (auto simp: rejections_def split: sum.splits)

lemma createOrder_failure_unchanged:
  "createOrder rc col s cred r = (s', Inl err) \<Longrightarrow> s' = s"
  by (auto simp: createOrder_def Let_def split: sum.splits option.splits if_splits prod.splits)

lemma createOrder_rejects:
  assumes "validateCreate r" and "findActiveLocation s (r_locationId r) \<noteq> None"
    and "e \<in> set (r_items r)" and "priceItem rc s (r_locationId r) e = Inl x"
  shows "\<exists>e'\<in>set (r_items r). \<exists>err. priceItem rc s (r_locationId r) e' = Inl err
           \<and> createOrder rc col s (Token u) r = (s, Inl err)"
proof -
  let ?rs = "map (priceItem rc s (r_locationId r)) (r_items r)"
  have "x \<in> set (rejections ?rs)"
    using assms(3,4) by (auto simp: rejections_mem)
  then have "rejections ?rs \<noteq> []" by auto
  from promiseAll_some_rejection [OF this, of rc] obtain err where
    e: "promiseAll rc ?rs = Inl err" "err \<in> set (rejections ?rs)" by blast
  from e(2) obtain e' where "e' \<in> set (r_items r)" "priceItem rc s (r_locationId r) e' = Inl err"
    by (auto simp: rejections_mem)
  moreover have "createOrder rc col s (Token u) r = (s, Inl err)"
    using assms(1,2) e(1) by (auto simp: createOrder_def)
  ultimately show ?thesis by blast
qed

lemma createOrder_fails_if_entry_fails:
  assumes "e \<in> set (r_items r)" and "priceItem rc s (r_locationId r) e = Inl x"
  shows "\<exists>err. createOrder rc col s cred r = (s, Inl err)"
proof (cases cred)
  case (Token u)
  show ?thesis
  proof (cases "validateCreate r \<and> findActiveLocation s (r_locationId r) \<noteq> None")
    case True
    with createOrder_rejects [of r s e rc x col u] assms Token show ?thesis by blast
  next
    case False
    with Token show ?thesis by (auto simp: createOrder_def)
  qed
qed (simp_all add: createOrder_def)

lemma findAvailableMenu_Some:
  "findAvailableMenu s k = Some m \<Longrightarrow> m \<in> set (menus s) \<and> m_id m = k \<and> m_isAvailable m"
  by (auto simp: findAvailableMenu_def find_Some_iff)

lemma priceItem_foreign:
  assumes "foreignItem s loc e"
  shows "priceItem rc s loc e = Inl (ItemNotFound (ci_menuId e))
       \<or> (\<exists>m. findAvailableMenu s (ci_menuId e) = Some m \<and> m_locationId m \<noteq> loc
             \<and> priceItem rc s loc e = Inl (LocationMismatch (m_title m)))"
proof (cases "findAvailableMenu s (ci_menuId e)")
  case None
  then show ?thesis by (simp add: priceItem_def)
next
  case (Some m)
  from findAvailableMenu_Some [OF this] assms have "m_locationId m \<noteq> loc"
    by (auto simp: foreignItem_def list_all_iff)
  with Some show ?thesis by (simp add: priceItem_def)
qed

lemma priceItem_noOtherFailure:
  assumes "noOtherFailure s r" and "e \<in> set (r_items r)"
    and "priceItem rc s (r_locationId r) e = Inl err"
  shows "\<exists>m. findAvailableMenu s (ci_menuId e) = Some m \<and> m_locationId m \<noteq> r_locationId r
           \<and> err = LocationMismatch (m_title m)"
proof -
  from assms(1,2) obtain m where m: "findAvailableMenu s (ci_menuId e) = Some m"
    and d: "m_locationId m \<noteq> r_locationId r
        \<or> list_all (\<lambda>c. findCustomization s (cr_customizationId c) \<noteq> None) (ci_customizations e)"
    by (auto simp: noOtherFailure_def list_all_iff split: option.splits)
  show ?thesis
  proof (cases "m_locationId m = r_locationId r")
    case True
    with d have "list_all (\<lambda>c. findCustomization s (cr_customizationId c) \<noteq> None) (ci_customizations e)"
      by simp
    from priceItem_succeeds [OF m True this, of rc] assms(3) show ?thesis by simp
  next
    case False
    with m assms(3) show ?thesis by (simp add: priceItem_def)
  qed
qed

lemma findAvailableMenu_None:
  "itemAbsent s e \<or> itemUnavailable s e \<Longrightarrow> findAvailableMenu s (ci_menuId e) = None"
  by (auto simp: itemAbsent_def itemUnavailable_def findAvailableMenu_def find_None_iff
      list_all_iff list_ex_iff)

section \<open>Items of another location\<close>

text \<open>
  C2 (as amended). Whenever the cart holds an entry whose menu item is foreign to the
  target location, order creation fails and returns the state it was given: no Order,
  OrderItem or OrderItemCustomization row is created and nothing is pushed. This holds
  for every caller, every race between the lookups and whatever else is wrong with the
  request. When nothing else is wrong (\<open>noOtherFailure\<close>), the failure is the location
  mismatch of one of the entries (``Menu item ... not available at this location'', 400).
\<close>

theorem foreign_item_rejected:
  assumes "e \<in> set (r_items r)" and "foreignItem s (r_locationId r) e"
  shows "(\<exists>err. createOrder rc col s cred r = (s, Inl err))
       \<and> (noOtherFailure s r \<longrightarrow>
            (\<exists>e'\<in>set (r_items r). \<exists>m. findAvailableMenu s (ci_menuId e') = Some m
                \<and> m_locationId m \<noteq> r_locationId r
                \<and> createOrder rc col s (Token u) r = (s, Inl (LocationMismatch (m_title m)))
                \<and> statusCode (LocationMismatch (m_title m)) = Some 400))"
proof (intro conjI impI)
  from priceItem_foreign [OF assms(2), of rc] obtain x where
    x: "priceItem rc s (r_locationId r) e = Inl x" by blast
  from createOrder_fails_if_entry_fails [OF assms(1) x]
  show "\<exists>err. createOrder rc col s cred r = (s, Inl err)" .
  assume n: "noOtherFailure s r"
  then have "validateCreate r" "findActiveLocation s (r_locationId r) \<noteq> None"
    by (simp_all add: noOtherFailure_def)
  from createOrder_rejects [OF this assms(1) x, of col u] obtain e' err where
    e': "e' \<in> set (r_items r)" "priceItem rc s (r_locationId r) e' = Inl err"
      "createOrder rc col s (Token u) r = (s, Inl err)" by blast
  from priceItem_noOtherFailure [OF n e'(1,2)] e'(1,3)
  show "\<exists>e'\<in>set (r_items r). \<exists>m. findAvailableMenu s (ci_menuId e') = Some m
                \<and> m_locationId m \<noteq> r_locationId r
                \<and> createOrder rc col s (Token u) r = (s, Inl (LocationMismatch (m_title m)))
                \<and> statusCode (LocationMismatch (m_title m)) = Some 400"
    by auto
qed

theorem foreign_item_rejected_witness:
  "foreignItem demo 1 \<lparr>ci_menuId = 2, ci_quantity = 1, ci_customizations = []\<rparr>
   \<and> noOtherFailure demo soupAtBurgerPlace
   \<and> createOrder firstRejection int32 demo (Token owner) soupAtBurgerPlace
       = (demo, Inl (LocationMismatch ''Soup''))
   \<and> (\<exists>err. createOrder firstRejection int32 demo NoToken soupAtBurgerPlace = (demo, Inl err))"
proof -
  let ?e = "\<lparr>ci_menuId = 2, ci_quantity = 1, ci_customizations = []\<rparr>"
  have f: "foreignItem demo 1 ?e"
    by (simp add: foreignItem_def demo_defs)
  have n: "noOtherFailure demo soupAtBurgerPlace"
    by (simp add: noOtherFailure_def soupAtBurgerPlace_def validateCreate_def
        findActiveLocation_def findAvailableMenu_def demo_defs)
  have m: "?e \<in> set (r_items soupAtBurgerPlace)" "r_locationId soupAtBurgerPlace = 1"
    by (simp_all add: soupAtBurgerPlace_def)
  from f m have f': "foreignItem demo (r_locationId soupAtBurgerPlace) ?e" by simp
  from foreign_item_rejected [OF m(1) f', of firstRejection int32 "Token owner" owner] n
  obtain e' mi where
    "e' \<in> set (r_items soupAtBurgerPlace)" "findAvailableMenu demo (ci_menuId e') = Some mi"
    "m_locationId mi \<noteq> 1"
    "createOrder firstRejection int32 demo (Token owner) soupAtBurgerPlace
       = (demo, Inl (LocationMismatch (m_title mi)))"
    using m(2) by auto
  then have c: "createOrder firstRejection int32 demo (Token owner) soupAtBurgerPlace
       = (demo, Inl (LocationMismatch ''Soup''))"
    by (auto simp: soupAtBurgerPlace_def findAvailableMenu_def demo_defs)
  from foreign_item_rejected [OF m(1) f', of firstRejection int32 NoToken owner]
  have "\<exists>err. createOrder firstRejection int32 demo NoToken soupAtBurgerPlace = (demo, Inl err)"
    by blast
  with f n c show ?thesis by simp
qed

text \<open>
  C2 as stated fails on the kind of failure. The salad belongs to location 2 and is
  switched off: ordered at location 1 it is reported as not found (404), not as a location
  mismatch. And a cart of foreign items sent to the closed location 3 fails with
  ``Location not found''. In both cases nothing is stored.
\<close>

theorem location_mismatch_counterexample:
  "find (\<lambda>m. m_id m = 3) (menus demo) = Some salad \<and> m_locationId salad = 2
   \<and> createOrder firstRejection int32 demo (Token owner) saladAtBurgerPlace
       = (demo, Inl (ItemNotFound 3))
   \<and> createOrder firstRejection int32 demo (Token owner) (soupAtBurgerPlace\<lparr>r_locationId := 3\<rparr>)
       = (demo, Inl LocationNotFound)"
  by (simp add: createOrder_def validateCreate_def saladAtBurgerPlace_def soupAtBurgerPlace_def
      findActiveLocation_def demo_def promiseAll_def rejections_def priceItem_def
      findAvailableMenu_def burger_def soup_def salad_def firstRejection_def)

section \<open>Items that are absent or unavailable\<close>

text \<open>
  C5 (as amended). Resolving a cart entry's menu item fails with the same error,
  ItemNotFound (``Menu item with ID ... not found'', 404), when no menu item with that id
  exists and when it exists but is switched off: the lookup filters on
  \<^verbatim>\<open>isAvailable: true\<close> and cannot tell the two apart. Order creation reports that
  error when the entries with that menu id are the only ones that fail.
\<close>

theorem unavailable_item_not_found:
  assumes "itemAbsent s e \<or> itemUnavailable s e"
  shows "priceItem rc s locationId e = Inl (ItemNotFound (ci_menuId e))
       \<and> statusCode (ItemNotFound (ci_menuId e)) = Some 404
       \<and> (validateCreate r \<and> findActiveLocation s (r_locationId r) \<noteq> None \<and> e \<in> set (r_items r)
          \<and> list_all (\<lambda>e'. ci_menuId e' = ci_menuId e \<or> resolvable s (r_locationId r) e') (r_items r)
          \<longrightarrow> createOrder rc col s (Token u) r = (s, Inl (ItemNotFound (ci_menuId e))))"
proof (intro conjI impI)
  have n: "findAvailableMenu s (ci_menuId e) = None"
    using assms by (rule findAvailableMenu_None)
  then show p: "priceItem rc s locationId e = Inl (ItemNotFound (ci_menuId e))"
    by (simp add: priceItem_def)
  show "statusCode (ItemNotFound (ci_menuId e)) = Some 404" by simp
  assume a: "validateCreate r \<and> findActiveLocation s (r_locationId r) \<noteq> None \<and> e \<in> set (r_items r)
          \<and> list_all (\<lambda>e'. ci_menuId e' = ci_menuId e \<or> resolvable s (r_locationId r) e') (r_items r)"
  have "priceItem rc s (r_locationId r) e = Inl (ItemNotFound (ci_menuId e))"
    using n by (simp add: priceItem_def)
  with a createOrder_rejects [of r s e rc _ col u] obtain e' err where
    e': "e' \<in> set (r_items r)" "priceItem rc s (r_locationId r) e' = Inl err"
      "createOrder rc col s (Token u) r = (s, Inl err)" by blast
  have "err = ItemNotFound (ci_menuId e)"
  proof (cases "ci_menuId e' = ci_menuId e")
    case True
    with n e'(2) show ?thesis by (simp add: priceItem_def)
  next
    case False
    with a e'(1) have "resolvable s (r_locationId r) e'" by (auto simp: list_all_iff)
    from priceItem_resolvable [OF this, of rc] e'(2) show ?thesis by simp
  qed
  with e'(3) show "createOrder rc col s (Token u) r = (s, Inl (ItemNotFound (ci_menuId e)))" by simp
qed

theorem unavailable_item_not_found_witness:
  "itemUnavailable demo \<lparr>ci_menuId = 3, ci_quantity = 1, ci_customizations = []\<rparr>
   \<and> itemAbsent demo \<lparr>ci_menuId = 99, ci_quantity = 1, ci_customizations = []\<rparr>
   \<and> createOrder firstRejection int32 demo (Token owner) saladOrder = (demo, Inl (ItemNotFound 3))
   \<and> createOrder firstRejection int32 demo (Token owner) ghostOrder = (demo, Inl (ItemNotFound 99))"
proof -
  have u: "itemUnavailable demo \<lparr>ci_menuId = 3, ci_quantity = 1, ci_customizations = []\<rparr>"
    and a: "itemAbsent demo \<lparr>ci_menuId = 99, ci_quantity = 1, ci_customizations = []\<rparr>"
    by (simp_all add: itemUnavailable_def itemAbsent_def demo_defs)
  have "createOrder firstRejection int32 demo (Token owner) saladOrder = (demo, Inl (ItemNotFound 3))"
    using unavailable_item_not_found [OF disjI2 [OF u], of firstRejection 2 saladOrder int32 owner]
    by (simp add: saladOrder_def validateCreate_def findActiveLocation_def demo_defs)
  moreover
  have "createOrder firstRejection int32 demo (Token owner) ghostOrder = (demo, Inl (ItemNotFound 99))"
    using unavailable_item_not_found [OF disjI1 [OF a], of firstRejection 2 ghostOrder int32 owner]
    by (simp add: ghostOrder_def validateCreate_def findActiveLocation_def resolvable_def
        findAvailableMenu_def demo_defs)
  ultimately show ?thesis using u a by simp
qed

text \<open>
  C5 as stated fails: there is no distinct ItemUnavailable error. Ordering the switched-off
  salad at its own location gives ItemNotFound 3, exactly what the same request gives once
  the salad row is gone from the menu.
\<close>

theorem item_unavailable_counterexample:
  "list_ex (\<lambda>m. m_id m = 3 \<and> \<not> m_isAvailable m) (menus demo)
   \<and> createOrder firstRejection int32 demo (Token owner) saladOrder = (demo, Inl (ItemNotFound 3))
   \<and> \<not> list_ex (\<lambda>m. m_id m = 3) (menus (demo\<lparr>menus := [burger, soup]\<rparr>))
   \<and> createOrder firstRejection int32 (demo\<lparr>menus := [burger, soup]\<rparr>) (Token owner) saladOrder
       = (demo\<lparr>menus := [burger, soup]\<rparr>, Inl (ItemNotFound 3))"
  by (simp add: create_defs saladOrder_def demo_defs)

section \<open>Customization quantities\<close>








section \<open>Orders in a terminal status\<close>

lemma insertCustomizations_frame:
  "insertCustomizations col s j cs = Inr s' \<Longrightarrow>
   orders s' = orders s \<and> orderItems s' = orderItems s"
proof (induction cs arbitrary: s)
  case Nil
  then show ?case by simp
next
  case (Cons c cs)
  then show ?case by (auto split: option.splits)
qed

lemma insertItems_frame:
  "insertItems col s k ps = Inr s' \<Longrightarrow>
   orders s' = orders s \<and> (\<exists>lines. orderItems s' = orderItems s @ lines \<and> list_all (\<lambda>l. oi_orderId l = k) lines)"
proof (induction ps arbitrary: s)
  case Nil
  then show ?case by simp
next
  case (Cons p ps)
  from Cons.prems obtain q s2 where
    ic: "insertCustomizations col
           (s\<lparr>orderItems := orderItems s @
                 [\<lparr>oi_id = nextId (map oi_id (orderItems s)), oi_orderId = k,
                   oi_menuId = ci_menuId (p_item p), oi_quantity = q,
                   oi_priceAtTime = m_price (p_menuItem p)\<rparr>]\<rparr>)
           (nextId (map oi_id (orderItems s))) (ci_customizations (p_item p)) = Inr s2"
    and ii: "insertItems col s2 k ps = Inr s'"
    by (auto simp: Let_def split: sum.splits option.splits)
  from insertCustomizations_frame [OF ic]
  have f1: "orders s2 = orders s"
    "orderItems s2 = orderItems s @
                 [\<lparr>oi_id = nextId (map oi_id (orderItems s)), oi_orderId = k,
                   oi_menuId = ci_menuId (p_item p), oi_quantity = q,
                   oi_priceAtTime = m_price (p_menuItem p)\<rparr>]"
    by simp_all
  from Cons.IH [OF ii] obtain lines where
    l: "orders s' = orders s2" "orderItems s' = orderItems s2 @ lines" "list_all (\<lambda>l. oi_orderId l = k) lines"
    by blast
  show ?case
    using l f1 by simp
qed

lemma orderTransaction_frame:
  assumes "orderTransaction col s loc uid tot ps = Inr (s1, ord)"
  shows "o_id ord = nextId (map o_id (orders s)) \<and> orders s1 = orders s @ [ord]
       \<and> (\<exists>lines. orderItems s1 = orderItems s @ lines \<and> list_all (\<lambda>l. oi_orderId l = o_id ord) lines)"
proof -
  from assms have o: "o_id ord = nextId (map o_id (orders s))"
    and ii: "insertItems col (s\<lparr>orders := orders s @ [ord]\<rparr>) (o_id ord) ps = Inr s1"
    by (auto simp: orderTransaction_def Let_def split: sum.splits option.splits if_splits)
  from insertItems_frame [OF ii] o show ?thesis by simp
qed



















section \<open>Orders that do not exist, and what a customer can read\<close>

lemma setOrderStatus_missing:
  assumes "findOrder s k = None" and "requireKitchenOrAdmin u" and "statusOfString x = Some st"
  shows "setOrderStatus s (Token u) k x = (s, Inl PrismaRecordNotFound)"
  using assms updateStatus_missing [of k "orders s" st "clock s"]
  by (simp add: setOrderStatus_def findOrder_def)

lemma cancelOrder_missing:
  "findOrder s k = None \<Longrightarrow> cancelOrder s (Token u) k = (s, Inl OrderNotFound)"
  by (simp add: cancelOrder_def)

lemma getOrder_missing:
  "findOrder s k = None \<Longrightarrow> getOrder s (Token u) k = Inl OrderNotFound"
  by (auto simp: getOrder_def findOrder_def find_None_iff split: option.splits)

lemma getOrder_visible:
  "getOrder s (Token u) k = Inr p \<Longrightarrow> a_role u = CUSTOMER \<Longrightarrow> o_userId (h_order p) = a_id u"
  by (auto simp: getOrder_def find_Some_iff visibleTo_def hydrate_def split: option.splits)

lemma listOrders_visible:
  assumes "listOrders s (Token u) statusQ locationQ page limit = Inr ps" and "a_role u = CUSTOMER"
  shows "list_all (\<lambda>p. o_userId (h_order p) = a_id u) ps"
proof -
  let ?m = "filter (\<lambda>ord. visibleTo u ord
                          \<and> (case statusQ of None \<Rightarrow> True
                              | Some q \<Rightarrow> q = [] \<or> statusName (o_status ord) = q)
                          \<and> (case locationQ of None \<Rightarrow> True
                              | Some l \<Rightarrow> o_locationId ord = l))
                        (orders s)"
  let ?sorted = "rev (sort_key o_createdAt ?m)"
  from assms(1) have ps: "ps = map (hydrate True s) (take limit (drop ((page - 1) * limit) ?sorted))"
    by (simp add: listOrders_def split: if_splits)
  have "set (take limit (drop ((page - 1) * limit) ?sorted))
      \<subseteq> set (drop ((page - 1) * limit) ?sorted)"
    by (rule set_take_subset)
  also have "\<dots> \<subseteq> set ?sorted"
    by (rule set_drop_subset)
  finally have sub: "set (take limit (drop ((page - 1) * limit) ?sorted)) \<subseteq> set ?m"
    by simp
  have "o_userId ord = a_id u" if "ord \<in> set ?m" for ord
    using that assms(2) by (simp add: visibleTo_def)
  with sub have "\<And>ord. ord \<in> set (take limit (drop ((page - 1) * limit) ?sorted))
      \<Longrightarrow> o_userId ord = a_id u"
    by blast
  then show ?thesis
    unfolding ps by (simp add: list_all_iff hydrate_def)
qed

lemma listOrders_page_zero:
  "0 < limit \<Longrightarrow> listOrders s (Token u) statusQ locationQ 0 limit = Inl PrismaValidationError"
  by (simp add: listOrders_def)

text \<open>
  C7, at the input where the code departs from it. No order 99 exists. Fetching and
  cancelling it fail with ``Order not found'' (404). Setting its status as KITCHEN does
  not: the route updates without a lookup, and what fails is the update itself, with
  Prisma's record-not-found exception, which is not an error of the routes and carries
  no status of theirs.
\<close>

theorem set_status_missing_order:
  "findOrder demo 99 = None
   \<and> setOrderStatus demo (Token cook) 99 ''COMPLETED'' = (demo, Inl PrismaRecordNotFound)
   \<and> statusCode PrismaRecordNotFound = None
   \<and> cancelOrder demo (Token cook) 99 = (demo, Inl OrderNotFound)
   \<and> getOrder demo (Token cook) 99 = Inl OrderNotFound"
  by (simp add: setOrderStatus_def cancelOrder_def getOrder_def findOrder_def
      requireKitchenOrAdmin_def requireRole_def statusOfString_def cook_def demo_defs)

section \<open>Pushes\<close>

lemma updateStatus_result:
  "updateStatus k st now os = Some (os', upd) \<Longrightarrow>
   o_id upd = k \<and> find (\<lambda>x. o_id x = k) os' = Some upd"
  by (induction os arbitrary: os') (auto split: if_splits)

lemma hydrate_lines:
  "h_order (hydrate b s ord) = ord"
  "map h_item (h_items (hydrate b s ord)) = linesOf s (o_id ord)"
  "map h_customizations (h_items (hydrate True s ord)) = customizationLinesOf s (o_id ord)"
  "list_all (\<lambda>i. h_customizations i = []) (h_items (hydrate False s ord))"
  by (simp_all add: hydrate_def hydrateItem_def linesOf_def customizationLinesOf_def comp_def
      list_all_iff)

lemma orderTransaction_order:
  "orderTransaction col s loc uid tot ps = Inr (s1, ord) \<Longrightarrow>
   o_status ord = PENDING \<and> o_locationId ord = loc \<and> o_userId ord = uid"
  by (auto simp: orderTransaction_def Let_def split: sum.splits option.splits if_splits)

lemma createOrder_success:
  assumes "createOrder rc col s cred r = (s', Inr out)"
  shows "\<exists>u p. cred = Token u \<and> out = Some p
     \<and> p = hydrate True s' (h_order p)
     \<and> findOrder s' (o_id (h_order p)) = Some (h_order p)
     \<and> o_status (h_order p) = PENDING
     \<and> o_locationId (h_order p) = r_locationId r \<and> o_userId (h_order p) = a_id u
     \<and> emitted s' = emitted s @
         [(LocationRoom (r_locationId r), ''newOrder'', OrderPayload (Some p)),
          (UserRoom (a_id u), ''orderCreated'', OrderPayload (Some p))]"
proof -
  from assms obtain u where cred: "cred = Token u"
    by (cases cred) (auto simp: createOrder_def)
  from assms cred have "\<exists>ps tot s1 ord.
      orderTransaction col s (r_locationId r) (a_id u) tot ps = Inr (s1, ord)
      \<and> out = map_option (hydrate True s1) (findOrder s1 (o_id ord))
      \<and> s' = emit (UserRoom (a_id u)) ''orderCreated'' (OrderPayload out)
               (emit (LocationRoom (r_locationId r)) ''newOrder'' (OrderPayload out) s1)"
    by (auto simp: createOrder_def Let_def split: sum.splits option.splits if_splits prod.splits)
  then obtain ps tot s1 ord where
    tx: "orderTransaction col s (r_locationId r) (a_id u) tot ps = Inr (s1, ord)"
    and out: "out = map_option (hydrate True s1) (findOrder s1 (o_id ord))"
    and s': "s' = emit (UserRoom (a_id u)) ''orderCreated'' (OrderPayload out)
               (emit (LocationRoom (r_locationId r)) ''newOrder'' (OrderPayload out) s1)"
    by blast
  from orderTransaction_frame [OF tx] have fo: "findOrder s1 (o_id ord) = Some ord"
    by (intro findOrder_new [of s1 s]) simp_all
  define p where "p = hydrate True s1 ord"
  from out fo have o: "out = Some p" by (simp add: p_def)
  have ho: "h_order p = ord" by (simp add: p_def hydrate_def)
  have "p = hydrate True s' (h_order p)"
    unfolding ho by (simp add: p_def s' emit_def hydrate_def hydrateItem_def)
  moreover have "findOrder s' (o_id (h_order p)) = Some (h_order p)"
    unfolding ho using fo by (simp add: s' emit_def findOrder_def)
  moreover have "o_status (h_order p) = PENDING" "o_locationId (h_order p) = r_locationId r"
    "o_userId (h_order p) = a_id u"
    unfolding ho using orderTransaction_order [OF tx] by simp_all
  moreover have "emitted s' = emitted s @
         [(LocationRoom (r_locationId r), ''newOrder'', OrderPayload (Some p)),
          (UserRoom (a_id u), ''orderCreated'', OrderPayload (Some p))]"
  proof -
    from tx have "emitted s1 = emitted s"
    proof -
      have ic: "\<And>s j cs s'. insertCustomizations col s j cs = Inr s' \<Longrightarrow> emitted s' = emitted s"
      proof -
        fix s j cs s'
        show "insertCustomizations col s j cs = Inr s' \<Longrightarrow> emitted s' = emitted s"
          by (induction cs arbitrary: s) (auto split: option.splits)
      qed
      have ii: "\<And>s k ps s'. insertItems col s k ps = Inr s' \<Longrightarrow> emitted s' = emitted s"
      proof -
        fix s k ps s'
        show "insertItems col s k ps = Inr s' \<Longrightarrow> emitted s' = emitted s"
          by (induction ps arbitrary: s)
             (auto simp: Let_def split: sum.splits option.splits dest!: ic)
      qed
      from tx show ?thesis
        by (auto simp: orderTransaction_def Let_def split: sum.splits option.splits if_splits
            dest!: ii)
    qed
    then show ?thesis by (simp add: s' o emit_def)
  qed
  ultimately show ?thesis using cred o by blast
qed

text \<open>
  C8 (as amended). The order routes push under four names. A created order is pushed as
  \<^verbatim>\<open>newOrder\<close> to the room of its location and as \<^verbatim>\<open>orderCreated\<close> to the room of
  the creating user; a status change is pushed as \<^verbatim>\<open>orderStatusUpdated\<close>, a
  cancellation as \<^verbatim>\<open>orderCancelled\<close>, each to the room of the order's location and
  to the room of its owner. The payload is the order as it is stored after the request,
  with all of its stored lines in order: on creation each line comes with its stored
  customization lines, after a status change or a cancellation without any. It is the
  value the response carries. A request that fails pushes nothing. Besides the routes,
  the socket relay pushes \<^verbatim>\<open>orderStatusUpdated\<close> to the location room named in a
  KITCHEN or ADMIN connection's status message, carrying the message's order id and
  status and the sender's email; messages from other roles are dropped.
\<close>

theorem lifecycle_pushes:
  "(createOrder rc col s cred r = (s', Inr out) \<longrightarrow>
      (\<exists>u p. cred = Token u \<and> out = Some p
         \<and> findOrder s' (o_id (h_order p)) = Some (h_order p)
         \<and> map h_item (h_items p) = linesOf s' (o_id (h_order p))
         \<and> map h_customizations (h_items p) = customizationLinesOf s' (o_id (h_order p))
         \<and> o_locationId (h_order p) = r_locationId r \<and> o_userId (h_order p) = a_id u
         \<and> emitted s' = emitted s @
             [(LocationRoom (o_locationId (h_order p)), ''newOrder'', OrderPayload (Some p)),
              (UserRoom (a_id u), ''orderCreated'', OrderPayload (Some p))]))
   \<and> (setOrderStatus s cred k x = (t, Inr q) \<longrightarrow>
        findOrder t (o_id (h_order q)) = Some (h_order q)
        \<and> map h_item (h_items q) = linesOf t (o_id (h_order q))
        \<and> list_all (\<lambda>i. h_customizations i = []) (h_items q)
        \<and> emitted t = emitted s @
            [(LocationRoom (o_locationId (h_order q)), ''orderStatusUpdated'', OrderPayload (Some q)),
             (UserRoom (o_userId (h_order q)), ''orderStatusUpdated'', OrderPayload (Some q))])
   \<and> (cancelOrder s cred k = (t', Inr q') \<longrightarrow>
        findOrder t' (o_id (h_order q')) = Some (h_order q')
        \<and> map h_item (h_items q') = linesOf t' (o_id (h_order q'))
        \<and> list_all (\<lambda>i. h_customizations i = []) (h_items q')
        \<and> emitted t' = emitted s @
            [(LocationRoom (o_locationId (h_order q')), ''orderCancelled'', OrderPayload (Some q')),
             (UserRoom (o_userId (h_order q')), ''orderCancelled'', OrderPayload (Some q'))])
   \<and> (createOrder rc col s cred r = (f, Inl e) \<longrightarrow> emitted f = emitted s)
   \<and> (setOrderStatus s cred k x = (f', Inl e') \<longrightarrow> emitted f' = emitted s)
   \<and> (cancelOrder s cred k = (f'', Inl e'') \<longrightarrow> emitted f'' = emitted s)
   \<and> emitted (updateOrderStatus s v d) =
       (if a_role v = KITCHEN \<or> a_role v = ADMIN
        then emitted s @ [(LocationRoom (sm_locationId d), ''orderStatusUpdated'',
                           StatusRelay (sm_orderId d) (sm_status d) (a_email v))]
        else emitted s)"
proof (intro conjI impI)
  assume "createOrder rc col s cred r = (s', Inr out)"
  from createOrder_success [OF this] obtain u p where
    h: "cred = Token u" "out = Some p" "p = hydrate True s' (h_order p)"
       "findOrder s' (o_id (h_order p)) = Some (h_order p)"
       "o_locationId (h_order p) = r_locationId r" "o_userId (h_order p) = a_id u"
       "emitted s' = emitted s @
         [(LocationRoom (r_locationId r), ''newOrder'', OrderPayload (Some p)),
          (UserRoom (a_id u), ''orderCreated'', OrderPayload (Some p))]"
    by blast
  have "map h_item (h_items p) = linesOf s' (o_id (h_order p))"
    "map h_customizations (h_items p) = customizationLinesOf s' (o_id (h_order p))"
    using hydrate_lines(2) [of True s' "h_order p"] hydrate_lines(3) [of s' "h_order p"] h(3)
    by simp_all
  with h show "\<exists>u p. cred = Token u \<and> out = Some p
         \<and> findOrder s' (o_id (h_order p)) = Some (h_order p)
         \<and> map h_item (h_items p) = linesOf s' (o_id (h_order p))
         \<and> map h_customizations (h_items p) = customizationLinesOf s' (o_id (h_order p))
         \<and> o_locationId (h_order p) = r_locationId r \<and> o_userId (h_order p) = a_id u
         \<and> emitted s' = emitted s @
             [(LocationRoom (o_locationId (h_order p)), ''newOrder'', OrderPayload (Some p)),
              (UserRoom (a_id u), ''orderCreated'', OrderPayload (Some p))]"
    by auto
next
  assume a: "setOrderStatus s cred k x = (t, Inr q)"
  then show "findOrder t (o_id (h_order q)) = Some (h_order q)"
    by (auto simp: setOrderStatus_def Let_def emit_def hydrate_def findOrder_def
        split: sum.splits option.splits if_splits prod.splits dest!: updateStatus_result)
  from a have hq: "q = hydrate False t (h_order q)"
    by (auto simp: setOrderStatus_def Let_def emit_def hydrate_def hydrateItem_def
        split: sum.splits option.splits if_splits prod.splits)
  show "map h_item (h_items q) = linesOf t (o_id (h_order q))"
    using hydrate_lines(2) [of False t "h_order q"] hq by simp
  show "list_all (\<lambda>i. h_customizations i = []) (h_items q)"
    using hydrate_lines(4) [of t "h_order q"] hq by simp
  from a show "emitted t = emitted s @
            [(LocationRoom (o_locationId (h_order q)), ''orderStatusUpdated'', OrderPayload (Some q)),
             (UserRoom (o_userId (h_order q)), ''orderStatusUpdated'', OrderPayload (Some q))]"
    by (auto simp: setOrderStatus_def Let_def emit_def hydrate_def
        split: sum.splits option.splits if_splits prod.splits)
next
  assume a: "cancelOrder s cred k = (t', Inr q')"
  then show "findOrder t' (o_id (h_order q')) = Some (h_order q')"
    by (auto simp: cancelOrder_def Let_def emit_def hydrate_def findOrder_def
        split: sum.splits option.splits if_splits prod.splits dest!: updateStatus_result)
  from a have hq: "q' = hydrate False t' (h_order q')"
    by (auto simp: cancelOrder_def Let_def emit_def hydrate_def hydrateItem_def
        split: sum.splits option.splits if_splits prod.splits)
  show "map h_item (h_items q') = linesOf t' (o_id (h_order q'))"
    using hydrate_lines(2) [of False t' "h_order q'"] hq by simp
  show "list_all (\<lambda>i. h_customizations i = []) (h_items q')"
    using hydrate_lines(4) [of t' "h_order q'"] hq by simp
  from a show "emitted t' = emitted s @
            [(LocationRoom (o_locationId (h_order q')), ''orderCancelled'', OrderPayload (Some q')),
             (UserRoom (o_userId (h_order q')), ''orderCancelled'', OrderPayload (Some q'))]"
    by (auto simp: cancelOrder_def Let_def emit_def hydrate_def
        split: sum.splits option.splits if_splits prod.splits)
next
  assume "createOrder rc col s cred r = (f, Inl e)"
  from createOrder_failure_unchanged [OF this] show "emitted f = emitted s" by simp
next
  assume "setOrderStatus s cred k x = (f', Inl e')"
  then show "emitted f' = emitted s"
    by (auto simp: setOrderStatus_def Let_def
        split: sum.splits option.splits if_splits prod.splits)
next
  assume "cancelOrder s cred k = (f'', Inl e'')"
  then show "emitted f'' = emitted s"
    by (auto simp: cancelOrder_def Let_def
        split: sum.splits option.splits if_splits prod.splits)
next
  show "emitted (updateOrderStatus s v d) =
       (if a_role v = KITCHEN \<or> a_role v = ADMIN
        then emitted s @ [(LocationRoom (sm_locationId d), ''orderStatusUpdated'',
                           StatusRelay (sm_orderId d) (sm_status d) (a_email v))]
        else emitted s)"
    by (simp add: updateOrderStatus_def emit_def)
qed

theorem lifecycle_pushes_witness:
  "(\<exists>s' p. createOrder firstRejection int32 demo (Token owner) cheeseburgers = (s', Inr (Some p))
       \<and> map h_item (h_items p)
           = [\<lparr>oi_id = 3, oi_orderId = 3, oi_menuId = 1, oi_quantity = 2, oi_priceAtTime = 10\<rparr>]
       \<and> map h_customizations (h_items p)
           = [[\<lparr>oic_id = 2, oic_orderItemId = 3, oic_customizationId = 1, oic_quantity = 3,
                oic_priceAtTime = 2\<rparr>]]
       \<and> emitted s' = [(LocationRoom 1, ''newOrder'', OrderPayload (Some p)),
                       (UserRoom 7, ''orderCreated'', OrderPayload (Some p))])
   \<and> (\<exists>t q. setOrderStatus demo (Token cook) 1 ''IN_PROGRESS'' = (t, Inr q)
       \<and> map h_item (h_items q) = [line1] \<and> map h_customizations (h_items q) = [[]]
       \<and> emitted t = [(LocationRoom 1, ''orderStatusUpdated'', OrderPayload (Some q)),
                      (UserRoom 7, ''orderStatusUpdated'', OrderPayload (Some q))])
   \<and> (\<exists>t q. cancelOrder demo (Token owner) 1 = (t, Inr q)
       \<and> map h_item (h_items q) = [line1] \<and> map h_customizations (h_items q) = [[]]
       \<and> emitted t = [(LocationRoom 1, ''orderCancelled'', OrderPayload (Some q)),
                      (UserRoom 7, ''orderCancelled'', OrderPayload (Some q))])
   \<and> (\<exists>f e. cancelOrder demo (Token owner) 2 = (f, Inl e) \<and> emitted f = [])"
proof -
  have ev: "emitted demo = []" "r_locationId cheeseburgers = 1" "a_id owner = 7"
    by (simp_all add: demo_def cheeseburgers_def owner_def)
  have "\<exists>s' p. createOrder firstRejection int32 demo (Token owner) cheeseburgers = (s', Inr (Some p))
      \<and> o_id (h_order p) = 3
      \<and> linesOf s' 3
          = [\<lparr>oi_id = 3, oi_orderId = 3, oi_menuId = 1, oi_quantity = 2, oi_priceAtTime = 10\<rparr>]
      \<and> customizationLinesOf s' 3
          = [[\<lparr>oic_id = 2, oic_orderItemId = 3, oic_customizationId = 1, oic_quantity = 3,
               oic_priceAtTime = 2\<rparr>]]"
    by (simp add: run_defs int32_def cheeseburgers_def owner_def demo_defs linesOf_def
        customizationLinesOf_def)
  then obtain s' p where
    cr: "createOrder firstRejection int32 demo (Token owner) cheeseburgers = (s', Inr (Some p))"
      "o_id (h_order p) = 3"
      "linesOf s' 3
          = [\<lparr>oi_id = 3, oi_orderId = 3, oi_menuId = 1, oi_quantity = 2, oi_priceAtTime = 10\<rparr>]"
      "customizationLinesOf s' 3
          = [[\<lparr>oic_id = 2, oic_orderItemId = 3, oic_customizationId = 1, oic_quantity = 3,
               oic_priceAtTime = 2\<rparr>]]"
    by blast
  have c: "map h_item (h_items p)
           = [\<lparr>oi_id = 3, oi_orderId = 3, oi_menuId = 1, oi_quantity = 2, oi_priceAtTime = 10\<rparr>]
       \<and> map h_customizations (h_items p)
           = [[\<lparr>oic_id = 2, oic_orderItemId = 3, oic_customizationId = 1, oic_quantity = 3,
                oic_priceAtTime = 2\<rparr>]]
       \<and> emitted s' = [(LocationRoom 1, ''newOrder'', OrderPayload (Some p)),
                       (UserRoom 7, ''orderCreated'', OrderPayload (Some p))]"
    using lifecycle_pushes [where rc = firstRejection and col = int32 and s = demo
        and cred = "Token owner" and r = cheeseburgers and s' = s' and out = "Some p",
        THEN conjunct1, THEN mp, OF cr(1)] cr(2,3,4)
    by (auto simp: ev)
  have "\<exists>t q. setOrderStatus demo (Token cook) 1 ''IN_PROGRESS'' = (t, Inr q)
      \<and> o_id (h_order q) = 1 \<and> o_locationId (h_order q) = 1 \<and> o_userId (h_order q) = 7
      \<and> linesOf t 1 = [line1]"
    by (simp add: setOrderStatus_def requireKitchenOrAdmin_def requireRole_def statusOfString_def
        hydrate_def emit_def linesOf_def Let_def cook_def demo_defs)
  then obtain t q where
    st: "setOrderStatus demo (Token cook) 1 ''IN_PROGRESS'' = (t, Inr q)"
      "o_id (h_order q) = 1" "o_locationId (h_order q) = 1" "o_userId (h_order q) = 7"
      "linesOf t 1 = [line1]" by blast
  have s: "map h_item (h_items q) = [line1] \<and> map h_customizations (h_items q) = [[]]
       \<and> emitted t = [(LocationRoom 1, ''orderStatusUpdated'', OrderPayload (Some q)),
                      (UserRoom 7, ''orderStatusUpdated'', OrderPayload (Some q))]"
    using lifecycle_pushes [where s = demo and cred = "Token cook" and k = 1
        and x = "''IN_PROGRESS''" and t = t and q = q,
        THEN conjunct2, THEN conjunct1, THEN mp, OF st(1)] st(2-5)
    by (auto simp: ev)
  have "\<exists>t q. cancelOrder demo (Token owner) 1 = (t, Inr q)
      \<and> o_id (h_order q) = 1 \<and> o_locationId (h_order q) = 1 \<and> o_userId (h_order q) = 7
      \<and> linesOf t 1 = [line1]"
    by (simp add: cancelOrder_def findOrder_def hydrate_def emit_def linesOf_def Let_def owner_def
        demo_defs)
  then obtain t' q' where
    ca: "cancelOrder demo (Token owner) 1 = (t', Inr q')"
      "o_id (h_order q') = 1" "o_locationId (h_order q') = 1" "o_userId (h_order q') = 7"
      "linesOf t' 1 = [line1]" by blast
  have a: "map h_item (h_items q') = [line1] \<and> map h_customizations (h_items q') = [[]]
       \<and> emitted t' = [(LocationRoom 1, ''orderCancelled'', OrderPayload (Some q')),
                      (UserRoom 7, ''orderCancelled'', OrderPayload (Some q'))]"
    using lifecycle_pushes [where s = demo and cred = "Token owner" and k = 1
        and t' = t' and q' = q',
        THEN conjunct2, THEN conjunct2, THEN conjunct1, THEN mp, OF ca(1)] ca(2-5)
    by (auto simp: ev)
  have "\<exists>f e. cancelOrder demo (Token owner) 2 = (f, Inl e)"
    by (simp add: cancelOrder_def findOrder_def owner_def demo_defs)
  then obtain f e where fa: "cancelOrder demo (Token owner) 2 = (f, Inl e)" by blast
  have n: "emitted f = []"
    using lifecycle_pushes [where s = demo and cred = "Token owner" and k = 2
        and f'' = f and e'' = e,
        THEN conjunct2, THEN conjunct2, THEN conjunct2, THEN conjunct2, THEN conjunct2,
        THEN conjunct1, THEN mp, OF fa]
    by (simp add: ev)
  have 1: "\<exists>s' p. createOrder firstRejection int32 demo (Token owner) cheeseburgers = (s', Inr (Some p))
       \<and> map h_item (h_items p)
           = [\<lparr>oi_id = 3, oi_orderId = 3, oi_menuId = 1, oi_quantity = 2, oi_priceAtTime = 10\<rparr>]
       \<and> map h_customizations (h_items p)
           = [[\<lparr>oic_id = 2, oic_orderItemId = 3, oic_customizationId = 1, oic_quantity = 3,
                oic_priceAtTime = 2\<rparr>]]
       \<and> emitted s' = [(LocationRoom 1, ''newOrder'', OrderPayload (Some p)),
                       (UserRoom 7, ''orderCreated'', OrderPayload (Some p))]"
    by (rule exI [of _ s'], rule exI [of _ p]) (simp add: cr(1) c)
  have 2: "\<exists>t q. setOrderStatus demo (Token cook) 1 ''IN_PROGRESS'' = (t, Inr q)
       \<and> map h_item (h_items q) = [line1] \<and> map h_customizations (h_items q) = [[]]
       \<and> emitted t = [(LocationRoom 1, ''orderStatusUpdated'', OrderPayload (Some q)),
                      (UserRoom 7, ''orderStatusUpdated'', OrderPayload (Some q))]"
    by (rule exI [of _ t], rule exI [of _ q]) (simp add: st(1) s)
  have 3: "\<exists>t q. cancelOrder demo (Token owner) 1 = (t, Inr q)
       \<and> map h_item (h_items q) = [line1] \<and> map h_customizations (h_items q) = [[]]
       \<and> emitted t = [(LocationRoom 1, ''orderCancelled'', OrderPayload (Some q)),
                      (UserRoom 7, ''orderCancelled'', OrderPayload (Some q))]"
    by (rule exI [of _ t'], rule exI [of _ q']) (simp add: ca(1) a)
  have 4: "\<exists>f e. cancelOrder demo (Token owner) 2 = (f, Inl e) \<and> emitted f = []"
    by (rule exI [of _ f], rule exI [of _ e]) (simp add: fa n)
  from 1 2 3 4 show ?thesis by (intro conjI)
qed

text \<open>
  C8 as stated fails: creation pushes a fourth name, \<^verbatim>\<open>orderCreated\<close>, and that is
  what the creating user's room receives; \<^verbatim>\<open>newOrder\<close> goes to the location room only.
  And the socket relay pushes \<^verbatim>\<open>orderStatusUpdated\<close> with three fields, not with an
  order.
\<close>

theorem push_names_counterexample:
  "map (\<lambda>(room, name, payload). (room, name))
     (emitted (fst (createOrder firstRejection int32 demo (Token owner) cheeseburgers)))
   = [(LocationRoom 1, ''newOrder''), (UserRoom 7, ''orderCreated'')]
   \<and> emitted (updateOrderStatus demo cook \<lparr>sm_orderId = 1, sm_status = ''COMPLETED'', sm_locationId = 1\<rparr>)
   = [(LocationRoom 1, ''orderStatusUpdated'', StatusRelay 1 ''COMPLETED'' ''cook@example.org'')]"
proof -
  from createOrder_valid [OF validCart_cheeseburgers storableCart_cheeseburgers storedUser_demo(1),
      of firstRejection]
  obtain s' p where
    "createOrder firstRejection int32 demo (Token owner) cheeseburgers = (s', Inr (Some p))"
    "emitted s' = emitted demo @
       [(LocationRoom (r_locationId cheeseburgers), ''newOrder'', OrderPayload (Some p)),
        (UserRoom (a_id owner), ''orderCreated'', OrderPayload (Some p))]"
    by blast
  then have "map (\<lambda>(room, name, payload). (room, name))
     (emitted (fst (createOrder firstRejection int32 demo (Token owner) cheeseburgers)))
   = [(LocationRoom 1, ''newOrder''), (UserRoom 7, ''orderCreated'')]"
    by (simp add: demo_def cheeseburgers_def owner_def)
  moreover have "emitted (updateOrderStatus demo cook
       \<lparr>sm_orderId = 1, sm_status = ''COMPLETED'', sm_locationId = 1\<rparr>)
   = [(LocationRoom 1, ''orderStatusUpdated'', StatusRelay 1 ''COMPLETED'' ''cook@example.org'')]"
    by (simp add: updateOrderStatus_def emit_def cook_def demo_def)
  ultimately show ?thesis by simp
qed

section \<open>Registration\<close>

lemma roleOfString_roleName: "roleOfString (roleName role) = Some role"
  by (cases role) (simp_all add: roleOfString_def)

text \<open>
  C9. Registration takes no credential. For every request that passes validation
  (an email the validator accepts, a password of at least 6 characters) with an email
  not yet in use, and for every role: if the request names that role, or names none and
  the role is CUSTOMER, a user row with exactly that role is stored. The response is the
  user with a token for that role, or the configuration fault when no signing secret is
  set; the row is stored in both cases.
\<close>

theorem register_any_role:
  assumes "isEmail env (g_email r)" and "6 \<le> length (g_password r)"
    and "g_role r = None \<and> role = CUSTOMER \<or> g_role r = Some (roleName role)"
    and "find (\<lambda>u. u_email u = normalizeEmail env (g_email r)) (users s) = None"
  shows "\<exists>s' out user. register env s r = (s', out)
     \<and> users s' = users s @ [user]
     \<and> u_role user = role
     \<and> u_email user = normalizeEmail env (g_email r)
     \<and> (out = Inl JwtSecretNotConfigured
        \<or> out = Inr (user, \<lparr>a_id = u_id user, a_email = u_email user, a_role = role\<rparr>))"
proof -
  from assms(3) have rr: "requestedRole r = Some role"
    by (auto simp: requestedRole_def roleOfString_roleName)
  define user where "user = \<lparr>u_id = nextId (map u_id (users s)),
      u_email = normalizeEmail env (g_email r), u_password = bcryptHash env (g_password r),
      u_role = role, u_loyaltyPoints = 0\<rparr>"
  define s' where "s' = s\<lparr>users := users s @ [user]\<rparr>"
  have "register env s r = (s', Inl JwtSecretNotConfigured)
      \<or> register env s r = (s', Inr (user, \<lparr>a_id = u_id user, a_email = u_email user, a_role = role\<rparr>))"
    using assms(1,2,4) rr
    by (auto simp: register_def Let_def user_def s'_def split: option.splits)
  moreover have "users s' = users s @ [user]" "u_role user = role"
    "u_email user = normalizeEmail env (g_email r)"
    by (simp_all add: s'_def user_def)
  ultimately show ?thesis by blast
qed

theorem register_any_role_witness:
  "\<exists>s' user tok. register demoEnv demo adminSignup = (s', Inr (user, tok))
     \<and> users s' = users demo @ [user] \<and> u_id user = 10
     \<and> u_role user = ADMIN \<and> a_role tok = ADMIN"
proof -
  have "\<exists>s' out user. register demoEnv demo adminSignup = (s', out)
     \<and> users s' = users demo @ [user]
     \<and> u_role user = ADMIN
     \<and> u_email user = normalizeEmail demoEnv (g_email adminSignup)
     \<and> (out = Inl JwtSecretNotConfigured
        \<or> out = Inr (user, \<lparr>a_id = u_id user, a_email = u_email user, a_role = ADMIN\<rparr>))"
    by (rule register_any_role) (simp_all add: demoEnv_def adminSignup_def demo_def)
  then obtain s' out user where
    h: "register demoEnv demo adminSignup = (s', out)" "users s' = users demo @ [user]"
       "u_role user = ADMIN"
       "out = Inl JwtSecretNotConfigured
        \<or> out = Inr (user, \<lparr>a_id = u_id user, a_email = u_email user, a_role = ADMIN\<rparr>)"
    by blast
  have "out \<noteq> Inl JwtSecretNotConfigured" "u_id (last (users s')) = 10"
    using h(1) by (auto simp: register_def Let_def demoEnv_def adminSignup_def demo_def requestedRole_def
        roleOfString_def nextId_def split: option.splits if_splits)
  with h show ?thesis by auto
qed

end
